theory Spec2Isabelle
  imports Main "HOL-Library.Sublist" "HOL-Library.Char_ord" "HOL-Library.List_Lexorder"
begin

section \<open>Strings as the agent invoker reads them\<close>

text \<open>
  A JavaScript string is modelled as a \<^typ>\<open>string\<close>, one \<^typ>\<open>char\<close> per code unit
  (code units above 255 are outside the model). The functions below are the
  library calls of \<^verbatim>\<open>cursor.ts\<close>, \<^verbatim>\<open>slack.ts\<close> and \<^verbatim>\<open>index.ts\<close>:
  \<^verbatim>\<open>trim\<close>, \<^verbatim>\<open>toLowerCase\<close>, \<^verbatim>\<open>includes\<close>, \<^verbatim>\<open>startsWith\<close>, \<^verbatim>\<open>substring(0, n)\<close>.
\<close>

definition isWhiteSpace :: "char \<Rightarrow> bool" where
  "isWhiteSpace c = (c \<in> set [CHR 0x09, CHR 0x0A, CHR 0x0B, CHR 0x0C, CHR 0x0D, CHR 0x20, CHR 0xA0])"

definition isLineTerminator :: "char \<Rightarrow> bool" where
  "isLineTerminator c = (c \<in> set [CHR 0x0A, CHR 0x0D])"

definition trim :: "string \<Rightarrow> string" where
  "trim s = rev (dropWhile isWhiteSpace (rev (dropWhile isWhiteSpace s)))"

definition lowerChar :: "char \<Rightarrow> char" where
  "lowerChar c =
     (case map_of (zip ''ABCDEFGHIJKLMNOPQRSTUVWXYZ'' ''abcdefghijklmnopqrstuvwxyz'') c of
        Some l \<Rightarrow> l
      | None \<Rightarrow> c)"

definition toLowerCase :: "string \<Rightarrow> string" where
  "toLowerCase s = map lowerChar s"

definition startsWith :: "string \<Rightarrow> string \<Rightarrow> bool" where
  "startsWith s p = prefix p s"

text \<open>\<^verbatim>\<open>s.includes(sub)\<close>: \<open>sub\<close> occurs in \<open>s\<close> at some position.\<close>

fun str_includes :: "string \<Rightarrow> string \<Rightarrow> bool" where
  "str_includes [] sub = (sub = [])"
| "str_includes (c # cs) sub = (prefix sub (c # cs) \<or> str_includes cs sub)"

text \<open>\<^verbatim>\<open>a || b\<close> on strings: the empty string is falsy.\<close>

definition str_or :: "string \<Rightarrow> string \<Rightarrow> string" where
  "str_or a b = (if a \<noteq> [] then a else b)"

subsection \<open>The retryable patterns\<close>

text \<open>
  \<^verbatim>\<open>RETRYABLE_PATTERNS\<close> holds five case-insensitive regular expressions. Four are
  plain words; \<^verbatim>\<open>/rate.?limit/i\<close> allows at most one character that is not a line
  terminator between \<^verbatim>\<open>rate\<close> and \<^verbatim>\<open>limit\<close>. The \<^verbatim>\<open>i\<close> flag folds the ASCII letters
  only, so each pattern is matched on the lower-cased text.
\<close>

fun match_rate_limit :: "string \<Rightarrow> bool" where
  "match_rate_limit [] = False"
| "match_rate_limit (c # cs) =
     ((prefix ''rate'' (c # cs) \<and>
        (case drop 4 (c # cs) of
           [] \<Rightarrow> False
         | d # ds \<Rightarrow> prefix ''limit'' (d # ds) \<or> (\<not> isLineTerminator d \<and> prefix ''limit'' ds)))
      \<or> match_rate_limit cs)"

definition RETRYABLE_PATTERNS :: "(string \<Rightarrow> bool) list" where
  "RETRYABLE_PATTERNS =
     [\<lambda>t. str_includes (toLowerCase t) ''resource_exhausted'',
      \<lambda>t. match_rate_limit (toLowerCase t),
      \<lambda>t. str_includes (toLowerCase t) ''too many requests'',
      \<lambda>t. str_includes (toLowerCase t) ''service unavailable'',
      \<lambda>t. str_includes (toLowerCase t) ''timeout'']"

definition isRetryable :: "string \<Rightarrow> bool" where
  "isRetryable t = list_ex (\<lambda>p. p t) RETRYABLE_PATTERNS"

section \<open>Values parsed from the agent's output\<close>

text \<open>
  \<^verbatim>\<open>JSON.parse\<close> belongs to the runtime, not to the repository, so the invoker takes
  it as a parameter \<open>parse\<close>: \<open>None\<close> is the \<^verbatim>\<open>SyntaxError\<close> it throws, \<open>Some v\<close> the
  value it returns. A \<open>JObj\<close> lists the own properties of the object, each key once.
  A number is kept as the text JavaScript prints for it (\<^verbatim>\<open>0\<close> for both zeros), which
  is all the invoker reads of a number: its truthiness and its string.
\<close>

datatype json =
    JNull
  | JBool bool
  | JNum string
  | JStr string
  | JArr "json list"
  | JObj "(string \<times> json) list"

text \<open>
  A property read \<^verbatim>\<open>v.key\<close> on a value that is not \<^verbatim>\<open>null\<close>: \<open>None\<close> is \<^verbatim>\<open>undefined\<close>.
  (On \<^verbatim>\<open>null\<close> the read throws; the caller tests for \<open>JNull\<close> first.)
\<close>

fun get_prop :: "json \<Rightarrow> string \<Rightarrow> json option" where
  "get_prop (JObj kvs) k = map_of kvs k"
| "get_prop _ k = None"

fun truthy :: "json option \<Rightarrow> bool" where
  "truthy None = False"
| "truthy (Some JNull) = False"
| "truthy (Some (JBool b)) = b"
| "truthy (Some (JNum n)) = (n \<noteq> ''0'')"
| "truthy (Some (JStr s)) = (s \<noteq> [])"
| "truthy (Some (JArr _)) = True"
| "truthy (Some (JObj _)) = True"

fun join_with :: "string \<Rightarrow> string list \<Rightarrow> string" where
  "join_with sep [] = []"
| "join_with sep [x] = x"
| "join_with sep (x # y # ys) = x @ sep @ join_with sep (y # ys)"

text \<open>\<^verbatim>\<open>String(v)\<close> for a parsed value.\<close>

fun js_toString :: "json \<Rightarrow> string" where
  "js_toString JNull = ''null''"
| "js_toString (JBool b) = (if b then ''true'' else ''false'')"
| "js_toString (JNum n) = n"
| "js_toString (JStr s) = s"
| "js_toString (JArr xs) =
     join_with '','' (map (\<lambda>x. if x = JNull then [] else js_toString x) xs)"
| "js_toString (JObj kvs) = ''[object Object]''"

section \<open>Errors and process outcomes\<close>

text \<open>
  A thrown \<^verbatim>\<open>Error\<close>: its message and the ad-hoc \<^verbatim>\<open>retryable\<close> property, \<open>None\<close> when
  the property was never attached.
\<close>

datatype jserror = JsError (message: string) (retryable: "bool option")

text \<open>\<^verbatim>\<open>new Error(v)\<close> for a value that may be \<^verbatim>\<open>undefined\<close>.\<close>

definition new_Error :: "json option \<Rightarrow> jserror" where
  "new_Error v = JsError (case v of None \<Rightarrow> [] | Some j \<Rightarrow> js_toString j) None"

text \<open>
  What a spawned \<^verbatim>\<open>cursor\<close> process did: it could not be spawned (the \<^verbatim>\<open>error\<close>
  event settles the promise), or it closed with an exit code (\<open>None\<close> when a signal
  killed it, as the timeout's \<^verbatim>\<open>SIGTERM\<close> does), its standard output and its
  standard error.
\<close>

datatype proc_result =
    SpawnError string
  | Closed "int option" string string

section \<open>The persisted state and the collaborators\<close>

subsection \<open>Data of \<^verbatim>\<open>types.ts\<close>\<close>

record ChannelData =
  projectPath :: string
  cursorChatId :: string
  createdAt :: string

record CursorEntry =
  lastSeenTs :: string

record PollState =
  channels :: "string \<rightharpoonup> CursorEntry"

record Config =
  slackBotToken :: string
  slackBotUserId :: string
  pollIntervalMs :: int
  dataDir :: string
  baseProjectPath :: string

subsection \<open>Messages of \<^verbatim>\<open>slack.ts\<close>\<close>

record SlackMessage =
  msg_ts :: string
  msg_user :: "string option"
  msg_text :: "string option"
  msg_bot_id :: "string option"

text \<open>A message as \<^verbatim>\<open>conversations.history\<close> delivers it: every field may be missing.\<close>

record RawMessage =
  raw_ts :: "string option"
  raw_user :: "string option"
  raw_text :: "string option"
  raw_bot_id :: "string option"

text \<open>A string that may be \<^verbatim>\<open>undefined\<close> is truthy when it is present and not empty.\<close>

definition present :: "string option \<Rightarrow> bool" where
  "present s = (case s of None \<Rightarrow> False | Some t \<Rightarrow> t \<noteq> [])"

subsection \<open>Texts the bot posts\<close>

text \<open>
  The texts are template literals with emoji; a text is modelled by the template
  that built it and the values interpolated into it.
\<close>

datatype prompt_failure =
    RateLimitExceeded
  | RequestTimedOut
  | OtherFailure string

datatype notice =
    NoBasePathConfigured
  | NoProjectsFound
  | ProjectsIn string "string list"
  | FailedToListProjects string
  | NoConversationUseNewFirst
  | NoUncommittedChanges
  | GitDiffFor string string bool
  | NotAGitRepository
  | FailedToGetDiff string
  | PathDoesNotExist string
  | CreatingConversation string
  | StartedConversation string
  | FailedToCreateConversation string
  | AgentResponse "json option"
  | ErrorProcessingRequest prompt_failure
  | NoConversationUsage

subsection \<open>Effects\<close>

text \<open>
  Every call that leaves the process is recorded, in order: the Slack calls, the
  spawned \<^verbatim>\<open>cursor\<close> processes, the back-off sleeps, the directory listing, the
  \<^verbatim>\<open>git diff\<close> and the \<^verbatim>\<open>console.error\<close> of a failed poll. \<open>Dispatch\<close> is a ghost
  event: it marks an entry into \<^verbatim>\<open>processMessage\<close>. The informational \<^verbatim>\<open>log\<close> lines are
  left out.
\<close>

datatype event =
    ConversationsHistory string "string option"
  | ChatPostMessage string notice
  | ChatUpdate string string notice
  | ReactionsAdd string string string
  | ReactionsRemove string string string
  | SpawnCreateChat string
  | SpawnAgent string string
  | Sleep nat
  | ReadDir string
  | GitDiff string
  | Dispatch string SlackMessage
  | PollError string jserror

text \<open>
  The collaborators: what each outside call answers. An answer may depend on
  everything that happened before, so it is a function of the events so far.
  \<open>run_agent\<close> gives the outcome of the \<open>k\<close>-th process that one \<^verbatim>\<open>sendPrompt\<close> call spawns.
\<close>

record Collaborators =
  JSON_parse :: "string \<Rightarrow> json option"
  conversations_history :: "event list \<Rightarrow> string \<Rightarrow> string option \<Rightarrow> jserror + RawMessage list option"
  chat_postMessage :: "event list \<Rightarrow> string \<Rightarrow> notice \<Rightarrow> jserror + string option"
  chat_update :: "event list \<Rightarrow> string \<Rightarrow> string \<Rightarrow> notice \<Rightarrow> jserror option"
  fs_existsSync :: "string \<Rightarrow> bool"
  fs_readdirSync :: "string \<Rightarrow> jserror + (string \<times> bool) list"
  exec_git_diff :: "string \<Rightarrow> jserror + string"
  run_create_chat :: "event list \<Rightarrow> string \<Rightarrow> proc_result"
  run_agent :: "event list \<Rightarrow> string \<Rightarrow> string \<Rightarrow> nat \<Rightarrow> proc_result"
  clock_now :: "event list \<Rightarrow> string"

text \<open>
  The world the bot acts on: \<^verbatim>\<open>state.json\<close> (\<open>None\<close> while the file does not exist),
  the files of the \<^verbatim>\<open>channels\<close> directory by path, and the events so far. A file holds
  the value that \<^verbatim>\<open>JSON.stringify\<close> wrote and \<^verbatim>\<open>JSON.parse\<close> reads back.
\<close>

record World =
  stateFile :: "PollState option"
  channelFiles :: "string \<rightharpoonup> ChannelData"
  trace :: "event list"

definition emit :: "event \<Rightarrow> World \<Rightarrow> World" where
  "emit e w = w\<lparr>trace := trace w @ [e]\<rparr>"

section \<open>The session store\<close>

text \<open>
  The store is modelled for channel identifiers that index the \<^verbatim>\<open>channels\<close> object by
  an own property, that is, for identifiers that name no member of
  \<^verbatim>\<open>Object.prototype\<close> (such as \<^verbatim>\<open>__proto__\<close> or \<^verbatim>\<open>constructor\<close>, which read and write the
  prototype and are not persisted): for them \<^verbatim>\<open>channels\<close> is a map. File names are
  compared as strings, and \<^verbatim>\<open>state.json\<close> is held apart from the channel files: no
  identifier without a path separator reaches it.
\<close>

text \<open>
  \<^verbatim>\<open>path.join\<close> of Node on a POSIX system. The arguments that are not empty are
  joined with \<^verbatim>\<open>/\<close> and the result is normalised: empty and \<^verbatim>\<open>.\<close> segments are
  dropped, a \<^verbatim>\<open>..\<close> segment removes the segment before it (or is kept, on a relative
  path that has none), and a trailing separator is kept.
\<close>

fun split_on :: "char \<Rightarrow> string \<Rightarrow> string list" where
  "split_on sep [] = [[]]"
| "split_on sep (x # xs) =
     (if x = sep then [] # split_on sep xs
      else (case split_on sep xs of [] \<Rightarrow> [[x]] | s # ss \<Rightarrow> (x # s) # ss))"

text \<open>The segments kept so far are held newest first.\<close>

fun normalizeString :: "bool \<Rightarrow> string list \<Rightarrow> string list \<Rightarrow> string list" where
  "normalizeString allowAboveRoot res [] = rev res"
| "normalizeString allowAboveRoot res (seg # segs) =
     (if seg = [] \<or> seg = ''.'' then normalizeString allowAboveRoot res segs
      else if seg = ''..'' then
        (if res \<noteq> [] \<and> hd res \<noteq> ''..'' then normalizeString allowAboveRoot (tl res) segs
         else if allowAboveRoot then normalizeString allowAboveRoot (''..'' # res) segs
         else normalizeString allowAboveRoot res segs)
      else normalizeString allowAboveRoot (seg # res) segs)"

definition path_normalize :: "string \<Rightarrow> string" where
  "path_normalize p =
     (if p = [] then ''.''
      else let isAbs = (hd p = CHR ''/'');
               trailingSeparator = (last p = CHR ''/'');
               q = join_with ''/'' (normalizeString (\<not> isAbs) [] (split_on CHR ''/'' p))
           in if q = [] then (if isAbs then ''/'' else if trailingSeparator then ''./'' else ''.'')
              else (if isAbs then ''/'' else []) @ q @ (if trailingSeparator then ''/'' else []))"

definition path_join :: "string \<Rightarrow> string \<Rightarrow> string" where
  "path_join a b =
     (let joined = (if a = [] then b else if b = [] then a else a @ ''/'' @ b)
      in if joined = [] then ''.'' else path_normalize joined)"

definition channelsDir :: "Config \<Rightarrow> string" where
  "channelsDir cfg = path_join (dataDir cfg) ''channels''"

definition loadPollState :: "World \<Rightarrow> PollState" where
  "loadPollState w = (case stateFile w of None \<Rightarrow> \<lparr>channels = Map.empty\<rparr> | Some s \<Rightarrow> s)"

definition savePollState :: "PollState \<Rightarrow> World \<Rightarrow> World" where
  "savePollState s w = w\<lparr>stateFile := Some s\<rparr>"

definition getLastSeenTs :: "string \<Rightarrow> World \<Rightarrow> string option" where
  "getLastSeenTs channelId w =
     (case channels (loadPollState w) channelId of
        None \<Rightarrow> None
      | Some e \<Rightarrow> Some (lastSeenTs e))"

definition setLastSeenTs :: "string \<Rightarrow> string \<Rightarrow> World \<Rightarrow> World" where
  "setLastSeenTs channelId ts w =
     (let state = loadPollState w in
      savePollState
        (case channels state channelId of
           None \<Rightarrow> state\<lparr>channels := (channels state)(channelId \<mapsto> \<lparr>lastSeenTs = ts\<rparr>)\<rparr>
         | Some e \<Rightarrow> state\<lparr>channels := (channels state)(channelId \<mapsto> e\<lparr>lastSeenTs := ts\<rparr>)\<rparr>)
        w)"

definition channelFilePath :: "Config \<Rightarrow> string \<Rightarrow> string" where
  "channelFilePath cfg channelId = path_join (channelsDir cfg) (channelId @ ''.json'')"

definition loadChannelData :: "Config \<Rightarrow> string \<Rightarrow> World \<Rightarrow> ChannelData option" where
  "loadChannelData cfg channelId w = channelFiles w (channelFilePath cfg channelId)"

definition saveChannelData :: "Config \<Rightarrow> string \<Rightarrow> ChannelData \<Rightarrow> World \<Rightarrow> World" where
  "saveChannelData cfg channelId d w =
     w\<lparr>channelFiles := (channelFiles w)(channelFilePath cfg channelId \<mapsto> d)\<rparr>"

definition deleteChannelData :: "Config \<Rightarrow> string \<Rightarrow> World \<Rightarrow> World" where
  "deleteChannelData cfg channelId w =
     (if channelFiles w (channelFilePath cfg channelId) \<noteq> None
      then w\<lparr>channelFiles := (channelFiles w)(channelFilePath cfg channelId := None)\<rparr>
      else w)"

text \<open>
  The identifiers Slack issues for channels: not empty, upper-case letters and
  digits only.
\<close>

definition slack_id_char :: "char \<Rightarrow> bool" where
  "slack_id_char ch = (ch \<in> set ''ABCDEFGHIJKLMNOPQRSTUVWXYZ0123456789'')"

definition slack_id :: "string \<Rightarrow> bool" where
  "slack_id s = (s \<noteq> [] \<and> list_all slack_id_char s)"

section \<open>The chat client (\<^verbatim>\<open>slack.ts\<close>)\<close>

definition toSlackMessage :: "RawMessage \<Rightarrow> SlackMessage" where
  "toSlackMessage m =
     \<lparr>msg_ts = (case raw_ts m of None \<Rightarrow> [] | Some t \<Rightarrow> t),
      msg_user = raw_user m, msg_text = raw_text m, msg_bot_id = raw_bot_id m\<rparr>"

text \<open>
  \<^verbatim>\<open>getHistory\<close>: \<^verbatim>\<open>oldest\<close> is passed on only when truthy; the messages that have a
  timestamp and a text are kept, and the newest-first answer is reversed.
\<close>

definition getHistory ::
  "Collaborators \<Rightarrow> string \<Rightarrow> string option \<Rightarrow> World \<Rightarrow> (jserror + SlackMessage list) \<times> World" where
  "getHistory env channelId oldest w =
     (let params_oldest = (if present oldest then oldest else None);
          w1 = emit (ConversationsHistory channelId params_oldest) w
      in case conversations_history env (trace w) channelId params_oldest of
           Inl err \<Rightarrow> (Inl err, w1)
         | Inr None \<Rightarrow> (Inr [], w1)
         | Inr (Some messages) \<Rightarrow>
             (Inr (rev (map toSlackMessage
                     (filter (\<lambda>m. present (raw_ts m) \<and> raw_text m \<noteq> None) messages))), w1))"

definition postMessage ::
  "Collaborators \<Rightarrow> string \<Rightarrow> notice \<Rightarrow> World \<Rightarrow> (jserror + string option) \<times> World" where
  "postMessage env channelId txt w =
     (chat_postMessage env (trace w) channelId txt, emit (ChatPostMessage channelId txt) w)"

definition updateMessage ::
  "Collaborators \<Rightarrow> string \<Rightarrow> string \<Rightarrow> notice \<Rightarrow> World \<Rightarrow> (jserror + unit) \<times> World" where
  "updateMessage env channelId ts txt w =
     ((case chat_update env (trace w) channelId ts txt of Some err \<Rightarrow> Inl err | None \<Rightarrow> Inr ()),
      emit (ChatUpdate channelId ts txt) w)"

text \<open>The reaction calls swallow every failure.\<close>

definition addReaction :: "string \<Rightarrow> string \<Rightarrow> string \<Rightarrow> World \<Rightarrow> World" where
  "addReaction channelId ts emoji w = emit (ReactionsAdd channelId ts emoji) w"

definition removeReaction :: "string \<Rightarrow> string \<Rightarrow> string \<Rightarrow> World \<Rightarrow> World" where
  "removeReaction channelId ts emoji w = emit (ReactionsRemove channelId ts emoji) w"

definition botMention :: "Config \<Rightarrow> string" where
  "botMention cfg = ''<@'' @ slackBotUserId cfg @ ''>''"

definition mentionsBot :: "Config \<Rightarrow> string option \<Rightarrow> bool" where
  "mentionsBot cfg txt =
     (if \<not> present txt then False
      else str_includes (case txt of None \<Rightarrow> [] | Some t \<Rightarrow> t) (botMention cfg))"

text \<open>
  \<^verbatim>\<open>text.replace(new RegExp(mention, "g"), "")\<close>: every occurrence of the mention,
  leftmost first, is removed (a bot user id is alphanumeric, so the pattern is the
  literal mention).
\<close>

function remove_all :: "string \<Rightarrow> string \<Rightarrow> string" where
  "remove_all pat [] = []"
| "remove_all pat (c # cs) =
     (if pat \<noteq> [] \<and> prefix pat (c # cs) then remove_all pat (drop (length pat) (c # cs))
      else c # remove_all pat cs)"
  by pat_completeness auto
termination
  by (relation "measure (\<lambda>(pat, s). length s)") auto

definition removeBotMention :: "Config \<Rightarrow> string \<Rightarrow> string" where
  "removeBotMention cfg txt = trim (remove_all (botMention cfg) txt)"

section \<open>The agent invoker (\<^verbatim>\<open>cursor.ts\<close>)\<close>

definition createChat :: "Collaborators \<Rightarrow> string \<Rightarrow> World \<Rightarrow> (jserror + string) \<times> World" where
  "createChat env workspace w =
     (let w1 = emit (SpawnCreateChat workspace) w in
      case run_create_chat env (trace w) workspace of
        SpawnError m \<Rightarrow> (Inl (JsError (''Spawn failed: '' @ m) None), w1)
      | Closed code out err \<Rightarrow>
          if code \<noteq> Some 0
          then (Inl (JsError (''Failed to create chat: '' @ str_or err ''Unknown error'') None), w1)
          else let chatId = trim out in
               if chatId = [] then (Inl (JsError ''Cursor returned empty chat ID'' None), w1)
               else (Inr chatId, w1))"

text \<open>
  \<^verbatim>\<open>sendPromptOnce\<close>, from the outcome of the process it spawned to the settlement of
  its promise (\<open>Inl\<close>: rejected). The \<^verbatim>\<open>catch\<close> is entered when \<^verbatim>\<open>JSON.parse\<close> throws and
  when the parsed value is \<^verbatim>\<open>null\<close> (reading \<^verbatim>\<open>is_error\<close> throws).
\<close>

definition lenient_fallback :: "string \<Rightarrow> jserror + json option" where
  "lenient_fallback output =
     (if output \<noteq> [] then Inr (Some (JStr output))
      else Inl (JsError ''Empty response from Cursor'' None))"

definition sendPromptOnce :: "(string \<Rightarrow> json option) \<Rightarrow> proc_result \<Rightarrow> jserror + json option" where
  "sendPromptOnce parse r =
     (case r of
        SpawnError m \<Rightarrow> Inl (JsError (''Spawn failed: '' @ m) None)
      | Closed code out err \<Rightarrow>
          let output = trim out in
          if str_includes (toLowerCase output) ''error'' \<and> \<not> startsWith output ''{''
          then Inl (JsError output (Some (isRetryable (output @ err))))
          else if code \<noteq> Some 0
          then let msg = str_or err (str_or out ''Unknown error'')
               in Inl (JsError msg (Some (isRetryable msg)))
          else (case parse output of
                  None \<Rightarrow> lenient_fallback output
                | Some response \<Rightarrow>
                    if response = JNull then lenient_fallback output
                    else if truthy (get_prop response ''is_error'')
                    then Inl (new_Error (get_prop response ''result''))
                    else Inr (get_prop response ''result'')))"

text \<open>
  \<^verbatim>\<open>sendPrompt\<close>: the \<^verbatim>\<open>for\<close> loop from \<open>attempt\<close> on. \<open>run k\<close> is the outcome of the
  process of attempt \<open>k\<close>. The result is the settlement and the sleeps and spawns made.
\<close>

function sendPrompt_from ::
  "(string \<Rightarrow> json option) \<Rightarrow> (nat \<Rightarrow> proc_result) \<Rightarrow> string \<Rightarrow> string \<Rightarrow> int \<Rightarrow> nat \<Rightarrow>
   jserror option \<Rightarrow> (jserror + json option) \<times> event list" where
  "sendPrompt_from parse run chatId prompt maxRetries attempt lastError =
     (if int attempt \<le> maxRetries then
        let waited = (if attempt > 0 then [Sleep (min (1000 * 2 ^ (attempt - 1)) 30000)] else [])
        in case sendPromptOnce parse (run attempt) of
             Inr response \<Rightarrow> (Inr response, waited @ [SpawnAgent chatId prompt])
           | Inl err \<Rightarrow>
               if \<not> (retryable err = Some True) \<or> int attempt \<ge> maxRetries
               then (Inl err, waited @ [SpawnAgent chatId prompt])
               else (case sendPrompt_from parse run chatId prompt maxRetries (attempt + 1) (Some err) of
                       (res, evs) \<Rightarrow> (res, waited @ [SpawnAgent chatId prompt] @ evs))
      else (Inl (case lastError of Some e \<Rightarrow> e | None \<Rightarrow> JsError ''Failed after retries'' None), []))"
  by pat_completeness auto
termination
  by (relation "measure (\<lambda>(parse, run, chatId, prompt, maxRetries, attempt, lastError).
        nat (maxRetries + 1 - int attempt))") auto

declare sendPrompt_from.simps [simp del]

definition sendPrompt ::
  "(string \<Rightarrow> json option) \<Rightarrow> (nat \<Rightarrow> proc_result) \<Rightarrow> string \<Rightarrow> string \<Rightarrow> int \<Rightarrow>
   (jserror + json option) \<times> event list" where
  "sendPrompt parse run chatId prompt maxRetries =
     sendPrompt_from parse run chatId prompt maxRetries 0 None"

section \<open>The command dispatcher (\<^verbatim>\<open>index.ts\<close>)\<close>

subsection \<open>The three command patterns\<close>

text \<open>\<^verbatim>\<open>/^\/projects\s*$/\<close> and \<^verbatim>\<open>/^\/diff\s*$/\<close>: the word, then white space to the end.\<close>

definition PROJECTS_COMMAND_REGEX :: "string \<Rightarrow> bool" where
  "PROJECTS_COMMAND_REGEX s = (prefix ''/projects'' s \<and> list_all isWhiteSpace (drop 9 s))"

definition DIFF_COMMAND_REGEX :: "string \<Rightarrow> bool" where
  "DIFF_COMMAND_REGEX s = (prefix ''/diff'' s \<and> list_all isWhiteSpace (drop 5 s))"

text \<open>
  \<^verbatim>\<open>/^\/new\s+(.+)$/\<close>, giving the captured group. The white space is taken
  greedily and the group runs to the end of the text without a line terminator;
  when nothing follows the white space, the group is its last character.
\<close>

definition NEW_COMMAND_REGEX :: "string \<Rightarrow> string option" where
  "NEW_COMMAND_REGEX s =
     (if \<not> prefix ''/new'' s then None
      else let ws = takeWhile isWhiteSpace (drop 4 s);
               rest = dropWhile isWhiteSpace (drop 4 s)
           in if ws = [] then None
              else if rest \<noteq> [] then (if list_ex isLineTerminator rest then None else Some rest)
              else if 2 \<le> length ws \<and> \<not> isLineTerminator (last ws) then Some [last ws]
              else None)"

subsection \<open>The handlers\<close>

text \<open>\<^verbatim>\<open>path.isAbsolute\<close> on a POSIX system.\<close>

definition isAbsolute :: "string \<Rightarrow> bool" where
  "isAbsolute p = startsWith p ''/''"

definition resolveProjectPath :: "Config \<Rightarrow> string \<Rightarrow> string" where
  "resolveProjectPath cfg inputPath =
     (if isAbsolute inputPath then inputPath
      else if baseProjectPath cfg \<noteq> [] then path_join (baseProjectPath cfg) inputPath
      else inputPath)"

text \<open>Awaiting a call for its effect only.\<close>

definition done_unit :: "(jserror + 'a) \<times> World \<Rightarrow> (jserror + unit) \<times> World" where
  "done_unit r = (case r of (Inl err, w) \<Rightarrow> (Inl err, w) | (Inr _, w) \<Rightarrow> (Inr (), w))"

text \<open>A \<^verbatim>\<open>try\<close> block with its \<^verbatim>\<open>catch\<close> handler.\<close>

definition try_catch ::
  "(jserror + unit) \<times> World \<Rightarrow> (jserror \<Rightarrow> World \<Rightarrow> (jserror + unit) \<times> World) \<Rightarrow>
   (jserror + unit) \<times> World" where
  "try_catch r handler = (case r of (Inl err, w) \<Rightarrow> handler err w | (Inr u, w) \<Rightarrow> (Inr u, w))"

definition handleProjectsCommand ::
  "Collaborators \<Rightarrow> Config \<Rightarrow> string \<Rightarrow> World \<Rightarrow> (jserror + unit) \<times> World" where
  "handleProjectsCommand env cfg channelId w =
     (if baseProjectPath cfg = [] then done_unit (postMessage env channelId NoBasePathConfigured w)
      else try_catch
        (let w1 = emit (ReadDir (baseProjectPath cfg)) w in
         case fs_readdirSync env (baseProjectPath cfg) of
           Inl err \<Rightarrow> (Inl err, w1)
         | Inr entries \<Rightarrow>
             let dirs = sort (map fst (filter (\<lambda>(name, isDir). isDir \<and> \<not> startsWith name ''.'') entries))
             in if length dirs = 0 then done_unit (postMessage env channelId NoProjectsFound w1)
                else done_unit (postMessage env channelId (ProjectsIn (baseProjectPath cfg) dirs) w1))
        (\<lambda>err w2. done_unit (postMessage env channelId (FailedToListProjects (message err)) w2)))"

definition handleDiffCommand ::
  "Collaborators \<Rightarrow> string \<Rightarrow> ChannelData option \<Rightarrow> World \<Rightarrow> (jserror + unit) \<times> World" where
  "handleDiffCommand env channelId channelData w =
     (case channelData of
        None \<Rightarrow> done_unit (postMessage env channelId NoConversationUseNewFirst w)
      | Some d \<Rightarrow>
          try_catch
            (let w1 = emit (GitDiff (projectPath d)) w in
             case exec_git_diff env (projectPath d) of
               Inl err \<Rightarrow> (Inl err, w1)
             | Inr diff \<Rightarrow>
                 if trim diff = [] then done_unit (postMessage env channelId NoUncommittedChanges w1)
                 else let maxLength = 3500;
                          truncated = (length diff > maxLength);
                          output = (if length diff > maxLength then take maxLength diff else diff)
                      in done_unit (postMessage env channelId
                                      (GitDiffFor (projectPath d) output truncated) w1))
            (\<lambda>err w2.
               if str_includes (message err) ''not a git repository''
               then done_unit (postMessage env channelId NotAGitRepository w2)
               else done_unit (postMessage env channelId (FailedToGetDiff (message err)) w2)))"

definition handleNewCommand ::
  "Collaborators \<Rightarrow> Config \<Rightarrow> string \<Rightarrow> string \<Rightarrow> World \<Rightarrow> (jserror + unit) \<times> World" where
  "handleNewCommand env cfg channelId projectName w =
     (let path = resolveProjectPath cfg projectName in
      if \<not> fs_existsSync env path
      then done_unit (postMessage env channelId (PathDoesNotExist path) w)
      else case postMessage env channelId (CreatingConversation path) w of
             (Inl err, w1) \<Rightarrow> (Inl err, w1)
           | (Inr statusTs, w1) \<Rightarrow>
               try_catch
                 (case createChat env path w1 of
                    (Inl err, w2) \<Rightarrow> (Inl err, w2)
                  | (Inr chatId, w2) \<Rightarrow>
                      let w3 = saveChannelData cfg channelId
                                 \<lparr>projectPath = path, cursorChatId = chatId,
                                  createdAt = clock_now env (trace w2)\<rparr> w2
                      in if present statusTs
                         then updateMessage env channelId (case statusTs of None \<Rightarrow> [] | Some t \<Rightarrow> t)
                                (StartedConversation path) w3
                         else (Inr (), w3))
                 (\<lambda>err w4.
                    if present statusTs
                    then updateMessage env channelId (case statusTs of None \<Rightarrow> [] | Some t \<Rightarrow> t)
                           (FailedToCreateConversation (message err)) w4
                    else done_unit (postMessage env channelId
                                      (FailedToCreateConversation (message err)) w4)))"

definition handlePrompt ::
  "Collaborators \<Rightarrow> string \<Rightarrow> string \<Rightarrow> string \<Rightarrow> ChannelData \<Rightarrow> World \<Rightarrow>
   (jserror + unit) \<times> World" where
  "handlePrompt env channelId messageTs prompt channelData w =
     (let w1 = addReaction channelId messageTs ''hourglass_flowing_sand'' w in
      try_catch
        (case sendPrompt (JSON_parse env)
                (run_agent env (trace w1) (cursorChatId channelData) prompt)
                (cursorChatId channelData) prompt 3 of
           (Inl err, evs) \<Rightarrow> (Inl err, w1\<lparr>trace := trace w1 @ evs\<rparr>)
         | (Inr response, evs) \<Rightarrow>
             let w2 = removeReaction channelId messageTs ''hourglass_flowing_sand''
                        (w1\<lparr>trace := trace w1 @ evs\<rparr>);
                 w3 = addReaction channelId messageTs ''white_check_mark'' w2
             in done_unit (postMessage env channelId (AgentResponse response) w3))
        (\<lambda>err w4.
           let w5 = removeReaction channelId messageTs ''hourglass_flowing_sand'' w4;
               w6 = addReaction channelId messageTs ''x'' w5;
               msg = message err;
               userMessage =
                 (if str_includes msg ''resource_exhausted'' then RateLimitExceeded
                  else if str_includes msg ''timeout'' \<or> str_includes msg ''Timeout''
                  then RequestTimedOut
                  else OtherFailure (take 500 msg))
           in done_unit (postMessage env channelId (ErrorProcessingRequest userMessage) w6)))"

definition processMessage ::
  "Collaborators \<Rightarrow> Config \<Rightarrow> string \<Rightarrow> SlackMessage \<Rightarrow> World \<Rightarrow> (jserror + unit) \<times> World" where
  "processMessage env cfg channelId m w0 =
     (let w = emit (Dispatch channelId m) w0;
          txt = (case msg_text m of None \<Rightarrow> [] | Some t \<Rightarrow> t);
          cleanText = removeBotMention cfg txt
      in if PROJECTS_COMMAND_REGEX cleanText then handleProjectsCommand env cfg channelId w
         else case NEW_COMMAND_REGEX cleanText of
                Some group1 \<Rightarrow> handleNewCommand env cfg channelId (trim group1) w
              | None \<Rightarrow>
                  if DIFF_COMMAND_REGEX cleanText
                  then handleDiffCommand env channelId (loadChannelData cfg channelId w) w
                  else (case loadChannelData cfg channelId w of
                          None \<Rightarrow> done_unit (postMessage env channelId NoConversationUsage w)
                        | Some channelData \<Rightarrow>
                            handlePrompt env channelId (msg_ts m) cleanText channelData w))"

section \<open>The poll loop (\<^verbatim>\<open>index.ts\<close>)\<close>

text \<open>The \<^verbatim>\<open>for\<close> loop of \<^verbatim>\<open>pollChannel\<close> over the fetched messages.\<close>

fun pollMessages ::
  "Collaborators \<Rightarrow> Config \<Rightarrow> string \<Rightarrow> SlackMessage list \<Rightarrow> World \<Rightarrow> (jserror + unit) \<times> World" where
  "pollMessages env cfg channelId [] w = (Inr (), w)"
| "pollMessages env cfg channelId (m # ms) w =
     (let w1 = setLastSeenTs channelId (msg_ts m) w in
      if present (msg_bot_id m) then pollMessages env cfg channelId ms w1
      else if loadChannelData cfg channelId w1 = None \<and> \<not> mentionsBot cfg (msg_text m)
      then pollMessages env cfg channelId ms w1
      else (case processMessage env cfg channelId m w1 of
              (Inl err, w2) \<Rightarrow> (Inl err, w2)
            | (Inr _, w2) \<Rightarrow> pollMessages env cfg channelId ms w2))"

text \<open>The \<^verbatim>\<open>try\<close> block of \<^verbatim>\<open>pollChannel\<close>; the cursor was read before it.\<close>

definition pollChannel_try ::
  "Collaborators \<Rightarrow> Config \<Rightarrow> string \<Rightarrow> string option \<Rightarrow> World \<Rightarrow> (jserror + unit) \<times> World" where
  "pollChannel_try env cfg channelId lastSeen w =
     (case getHistory env channelId lastSeen w of
        (Inl err, w1) \<Rightarrow> (Inl err, w1)
      | (Inr messages, w1) \<Rightarrow>
          if \<not> present lastSeen \<and> length messages > 0
          then (Inr (), setLastSeenTs channelId (msg_ts (last messages)) w1)
          else pollMessages env cfg channelId messages w1)"

definition pollChannel :: "Collaborators \<Rightarrow> Config \<Rightarrow> string \<Rightarrow> World \<Rightarrow> World" where
  "pollChannel env cfg channelId w =
     (let lastSeen = getLastSeenTs channelId w in
      case pollChannel_try env cfg channelId lastSeen w of
        (Inl err, w1) \<Rightarrow> emit (PollError channelId err) w1
      | (Inr _, w1) \<Rightarrow> w1)"

text \<open>The messages that entered \<^verbatim>\<open>processMessage\<close>, read off the events.\<close>

fun dispatched :: "event list \<Rightarrow> (string \<times> SlackMessage) list" where
  "dispatched [] = []"
| "dispatched (Dispatch c m # es) = (c, m) # dispatched es"
| "dispatched (_ # es) = dispatched es"

text \<open>
  The \<^verbatim>\<open>for\<close> loop of \<^verbatim>\<open>poll\<close> over the channels listed. Successive cycles are the
  loop over their lists one after the other.
\<close>

fun pollChannels :: "Collaborators \<Rightarrow> Config \<Rightarrow> string list \<Rightarrow> World \<Rightarrow> World" where
  "pollChannels env cfg [] w = w"
| "pollChannels env cfg (ch # chs) w = pollChannels env cfg chs (pollChannel env cfg ch w)"

section \<open>Observations on a run\<close>

text \<open>An attempt that was rejected with the \<^verbatim>\<open>retryable\<close> property set to \<^verbatim>\<open>true\<close>.\<close>

definition retryable_failure :: "jserror + json option \<Rightarrow> bool" where
  "retryable_failure r = (case r of Inl err \<Rightarrow> retryable err = Some True | Inr _ \<Rightarrow> False)"

definition succeeded :: "jserror + json option \<Rightarrow> bool" where
  "succeeded r = (case r of Inl _ \<Rightarrow> False | Inr _ \<Rightarrow> True)"

text \<open>An outcome after which the loop of \<^verbatim>\<open>sendPrompt\<close> makes no further attempt.\<close>

definition final_outcome :: "int \<Rightarrow> nat \<Rightarrow> jserror + json option \<Rightarrow> bool" where
  "final_outcome maxRetries attempt r =
     (case r of Inl err \<Rightarrow> retryable err \<noteq> Some True \<or> int attempt \<ge> maxRetries | Inr _ \<Rightarrow> True)"

text \<open>
  The delay the specification gives for attempt \<open>k\<close>, in its own words: none before
  the first attempt, then \<^verbatim>\<open>min(1000 * 2^(k-1), 30000)\<close> milliseconds.
\<close>

definition spec_backoff_delay :: "nat \<Rightarrow> nat" where
  "spec_backoff_delay k = (if k = 0 then 0 else min (1000 * 2 ^ (k - 1)) 30000)"

text \<open>
  The time slept before each spawned agent process, read off the events: one entry
  per attempt, in order.
\<close>

fun attempt_delays :: "event list \<Rightarrow> nat \<Rightarrow> nat list" where
  "attempt_delays [] pending = []"
| "attempt_delays (Sleep d # es) pending = attempt_delays es (pending + d)"
| "attempt_delays (SpawnAgent c p # es) pending = pending # attempt_delays es 0"
| "attempt_delays (_ # es) pending = attempt_delays es pending"

text \<open>The events of attempt \<open>k\<close> of the loop, and of the attempts \<open>a\<close> up to \<open>b\<close>.\<close>

definition attempt_events :: "string \<Rightarrow> string \<Rightarrow> nat \<Rightarrow> event list" where
  "attempt_events chatId prompt k =
     (if k > 0 then [Sleep (min (1000 * 2 ^ (k - 1)) 30000)] else []) @ [SpawnAgent chatId prompt]"

definition attempts_between :: "string \<Rightarrow> string \<Rightarrow> nat \<Rightarrow> nat \<Rightarrow> event list" where
  "attempts_between chatId prompt a b = concat (map (attempt_events chatId prompt) [a..<b])"

text \<open>
  A step that leaves \<^verbatim>\<open>state.json\<close> alone and enters no \<^verbatim>\<open>processMessage\<close>: it only
  appends other events (and may write channel files).
\<close>

definition quiet :: "World \<Rightarrow> World \<Rightarrow> bool" where
  "quiet w w' = (stateFile w' = stateFile w \<and> (\<exists>evs. trace w' = trace w @ evs \<and> dispatched evs = []))"

section \<open>Example collaborators and worlds\<close>

text \<open>
  Concrete inputs on which the results below are evaluated. \<open>example_parse\<close> agrees
  with \<^verbatim>\<open>JSON.parse\<close> on the texts the examples feed it: \<open>quota_reply\<close> is the one
  JSON text among them.
\<close>

definition quota_reply :: string where
  \<open>quota_reply = ''{"is_error":true,"result":"resource_exhausted: quota"}''\<close>

definition example_parse :: "string \<Rightarrow> json option" where
  "example_parse s =
     (if s = quota_reply
      then Some (JObj [(''is_error'', JBool True), (''result'', JStr ''resource_exhausted: quota'')])
      else None)"

text \<open>
  Agent processes: one that always answers with the quota error in a structured
  response, one that is rate limited twice and then answers, one that is always
  unavailable, one that is denied.
\<close>

definition quota_run :: "nat \<Rightarrow> proc_result" where
  "quota_run k = Closed (Some 0) quota_reply []"

definition flaky_run :: "nat \<Rightarrow> proc_result" where
  "flaky_run k =
     (if k < 2 then Closed (Some 1) [] ''Rate limit exceeded'' else Closed (Some 0) ''all good'' [])"

definition busy_run :: "nat \<Rightarrow> proc_result" where
  "busy_run k = Closed (Some 1) [] ''503 Service Unavailable''"

definition denied_run :: "nat \<Rightarrow> proc_result" where
  "denied_run k = Closed (Some 1) [] ''permission denied''"

definition example_cfg :: Config where
  "example_cfg = \<lparr>slackBotToken = ''xoxb-test'', slackBotUserId = ''U1'', pollIntervalMs = 10000,
                   dataDir = ''./data'', baseProjectPath = ''/srv''\<rparr>"

definition user_message :: "string \<Rightarrow> string \<Rightarrow> RawMessage" where
  "user_message ts txt =
     \<lparr>raw_ts = Some ts, raw_user = Some ''U2'', raw_text = Some txt, raw_bot_id = None\<rparr>"

text \<open>
  Collaborators that answer every history request with \<open>page\<close> (newest first) and
  every \<^verbatim>\<open>chat.postMessage\<close> with \<open>posted\<close>; only \<^verbatim>\<open>/srv/app\<close> exists.
\<close>

definition example_env :: "RawMessage list \<Rightarrow> jserror + string option \<Rightarrow> Collaborators" where
  "example_env page posted =
     \<lparr>JSON_parse = example_parse,
      conversations_history = (\<lambda>evs c oldest. Inr (Some page)),
      chat_postMessage = (\<lambda>evs c n. posted),
      chat_update = (\<lambda>evs c ts n. None),
      fs_existsSync = (\<lambda>p. p = ''/srv/app''),
      fs_readdirSync = (\<lambda>p. Inr [(''b'', True), (''a'', True), (''.hidden'', True)]),
      exec_git_diff = (\<lambda>p. Inr []),
      run_create_chat = (\<lambda>evs p. Closed (Some 0) ''chat-1'' []),
      run_agent = (\<lambda>evs c p k. Closed (Some 0) ''all good'' []),
      clock_now = (\<lambda>evs. ''2026-01-01T00:00:00.000Z'')\<rparr>"


definition accepted_post :: "jserror + string option" where
  "accepted_post = Inr (Some ''200.000100'')"

definition two_messages :: "RawMessage list" where
  "two_messages = [user_message ''102'' ''hi'', user_message ''101'' ''<@U1> /projects'']"


text \<open>
  Collaborators whose history answers from a channel log (newest first) with the
  messages strictly newer than \<^verbatim>\<open>oldest\<close>, timestamps compared as strings.
\<close>

definition channel_log_env :: "RawMessage list \<Rightarrow> jserror + string option \<Rightarrow> Collaborators" where
  "channel_log_env log posted =
     (example_env [] posted)
       \<lparr>conversations_history :=
          (\<lambda>evs c oldest.
             Inr (Some (filter (\<lambda>r. case oldest of
                                      None \<Rightarrow> True
                                    | Some t \<Rightarrow> (case raw_ts r of None \<Rightarrow> False | Some s \<Rightarrow> t < s))
                          log)))\<rparr>"

definition growing_log :: "RawMessage list" where
  "growing_log = [user_message ''102'' ''<@U1> /projects'', user_message ''101'' ''<@U1> /projects'']"

definition fresh_world :: World where
  "fresh_world = \<lparr>stateFile = None, channelFiles = Map.empty, trace = []\<rparr>"

definition polled_world :: World where
  "polled_world = setLastSeenTs ''C1'' ''100'' fresh_world"

definition earlier_session :: ChannelData where
  "earlier_session = \<lparr>projectPath = ''/srv/app'', cursorChatId = ''chat-0'',
                       createdAt = ''2025-12-31T00:00:00.000Z''\<rparr>"

definition session_world :: World where
  "session_world = saveChannelData example_cfg ''C1'' earlier_session polled_world"

definition later_session :: ChannelData where
  "later_session = \<lparr>projectPath = ''/srv/other'', cursorChatId = ''chat-9'',
                     createdAt = ''2026-01-02T00:00:00.000Z''\<rparr>"

section \<open>The retry loop\<close>

lemma attempts_between_step:
  "a < b \<Longrightarrow> attempts_between c p a b = attempt_events c p a @ attempts_between c p (Suc a) b"
  by (simp add: attempts_between_def upt_conv_Cons)

lemma attempts_between_empty: "attempts_between c p a a = []"
  by (simp add: attempts_between_def)

lemma sendPrompt_from_final:
  assumes "int n \<le> M" and "final_outcome M n (sendPromptOnce parse (run n))"
  shows "sendPrompt_from parse run c p M n le = (sendPromptOnce parse (run n), attempt_events c p n)"
  using assms
  by (auto simp: sendPrompt_from.simps[of parse run c p M n le] final_outcome_def
        attempt_events_def split: sum.splits)

lemma sendPrompt_from_retry:
  assumes "int n < M" and "sendPromptOnce parse (run n) = Inl err" and "retryable err = Some True"
  shows "sendPrompt_from parse run c p M n le =
     (case sendPrompt_from parse run c p M (Suc n) (Some err) of
        (res, evs) \<Rightarrow> (res, attempt_events c p n @ evs))"
  using assms
  by (simp add: sendPrompt_from.simps[of parse run c p M n le] attempt_events_def
        split: prod.splits)

lemma sendPrompt_from_run:
  assumes "\<forall>k. a \<le> k \<and> k < n \<longrightarrow> retryable_failure (sendPromptOnce parse (run k))"
    and "a \<le> n" and "int n \<le> M"
    and "final_outcome M n (sendPromptOnce parse (run n))"
  shows "sendPrompt_from parse run c p M a le =
           (sendPromptOnce parse (run n), attempts_between c p a (Suc n))"
  using assms
proof (induction "n - a" arbitrary: a le)
  case 0
  then have "a = n" by simp
  with 0 show ?case
    by (simp add: sendPrompt_from_final attempts_between_step attempts_between_empty)
next
  case (Suc d)
  then have lt: "a < n" by simp
  with Suc.prems have "retryable_failure (sendPromptOnce parse (run a))" by simp
  then obtain err where err: "sendPromptOnce parse (run a) = Inl err" "retryable err = Some True"
    by (auto simp: retryable_failure_def split: sum.splits)
  from lt Suc.prems have aM: "int a < M" by simp
  have ih: "sendPrompt_from parse run c p M (Suc a) (Some err) =
           (sendPromptOnce parse (run n), attempts_between c p (Suc a) (Suc n))"
    using Suc.hyps(1)[of "Suc a" "Some err"] Suc.hyps(2) Suc.prems lt by auto
  have "sendPrompt_from parse run c p M a le =
     (case sendPrompt_from parse run c p M (Suc a) (Some err) of
        (res, evs) \<Rightarrow> (res, attempt_events c p a @ evs))"
    using aM err
    by (rule sendPrompt_from_retry[where parse=parse and run=run and n=a and M=M and err=err])
  then show ?case using ih lt
    by (simp add: attempts_between_step[of a "Suc n"])
qed

lemma attempt_delays_events:
  "attempt_delays (attempt_events c p k @ es) 0 = spec_backoff_delay k # attempt_delays es 0"
  by (simp add: attempt_events_def spec_backoff_delay_def)

lemma attempt_delays_between:
  "attempt_delays (attempts_between c p a b) 0 = map spec_backoff_delay [a..<b]"
proof (induction "b - a" arbitrary: a)
  case 0
  then show ?case by (simp add: attempts_between_def)
next
  case (Suc d)
  then have "a < b" by simp
  then show ?case using Suc.hyps(1)[of "Suc a"] Suc.hyps(2)
    by (simp add: attempts_between_step attempt_delays_events upt_conv_Cons)
qed

text \<open>
  Claim C3. With \<^verbatim>\<open>maxRetries = 3\<close>, when the attempts fail with a retryable
  failure until a first success at attempt \<open>n\<close> (counting from 0; there is none when
  \<open>n \<ge> 4\<close>), \<^verbatim>\<open>sendPrompt\<close> makes \<open>min (n + 1) 4\<close> attempts, and the time slept
  before attempt \<open>k\<close> is the specification's delay: 0, 1000, 2000 and 4000
  milliseconds for the four possible attempts.
\<close>

theorem sendPrompt_backoff_schedule:
  assumes "\<forall>k<n. retryable_failure (sendPromptOnce parse (run k))"
    and "n < 4 \<longrightarrow> succeeded (sendPromptOnce parse (run n))"
  shows "attempt_delays (snd (sendPrompt parse run chatId prompt 3)) 0
           = map spec_backoff_delay [0..<min (n + 1) 4]
       \<and> length (attempt_delays (snd (sendPrompt parse run chatId prompt 3)) 0) = min (n + 1) 4
       \<and> map spec_backoff_delay [0..<min (n + 1) 4] = take (min (n + 1) 4) [0, 1000, 2000, 4000]"
proof -
  define m where "m = min n 3"
  have m3: "int m \<le> 3" and mn: "m \<le> n" and sm: "Suc m = min (n + 1) 4"
    by (auto simp: m_def)
  have fails: "\<forall>k. 0 \<le> k \<and> k < m \<longrightarrow> retryable_failure (sendPromptOnce parse (run k))"
    using assms(1) mn by auto
  have fin: "final_outcome 3 m (sendPromptOnce parse (run m))"
  proof (cases "n < 4")
    case True
    then have "m = n" by (simp add: m_def)
    with True assms(2) show ?thesis
      by (auto simp: final_outcome_def succeeded_def split: sum.splits)
  next
    case False
    then have "m = 3" by (simp add: m_def)
    then show ?thesis by (simp add: final_outcome_def split: sum.splits)
  qed
  have run: "sendPrompt parse run chatId prompt 3
      = (sendPromptOnce parse (run m), attempts_between chatId prompt 0 (Suc m))"
    unfolding sendPrompt_def using fails m3 fin
    by (intro sendPrompt_from_run) auto
  have d: "attempt_delays (snd (sendPrompt parse run chatId prompt 3)) 0 = map spec_backoff_delay [0..<Suc m]"
    by (simp only: run snd_conv attempt_delays_between)
  have "m = 0 \<or> m = 1 \<or> m = 2 \<or> m = 3" using m3 by auto
  then have t: "map spec_backoff_delay [0..<Suc m] = take (Suc m) [0, 1000, 2000, 4000]"
    by (auto simp: spec_backoff_delay_def upt_rec)
  show ?thesis using d t sm by simp
qed

theorem sendPrompt_backoff_schedule_witness:
  "retryable_failure (sendPromptOnce example_parse (flaky_run 0))
   \<and> retryable_failure (sendPromptOnce example_parse (flaky_run 1))
   \<and> succeeded (sendPromptOnce example_parse (flaky_run 2))
   \<and> attempt_delays (snd (sendPrompt example_parse flaky_run ''chat-1'' ''hello'' 3)) 0 = [0, 1000, 2000]"
proof -
  have f0: "retryable_failure (sendPromptOnce example_parse (flaky_run 0))" by code_simp
  have f1: "retryable_failure (sendPromptOnce example_parse (flaky_run 1))" by code_simp
  have s2: "succeeded (sendPromptOnce example_parse (flaky_run 2))" by code_simp
  have h1: "\<forall>k<2. retryable_failure (sendPromptOnce example_parse (flaky_run k))"
    using f0 f1 by (auto simp: less_Suc_eq numeral_2_eq_2)
  have h2: "(2::nat) < 4 \<longrightarrow> succeeded (sendPromptOnce example_parse (flaky_run 2))"
    using s2 by simp
  show ?thesis
    using sendPrompt_backoff_schedule[OF h1 h2, of "''chat-1''" "''hello''"] f0 f1 s2
    by simp
qed

text \<open>
  Claim C6. With \<^verbatim>\<open>maxRetries = 3\<close>, a first attempt that fails with a failure not
  classified retryable is the only process spawned, and that failure is raised at
  once, with no sleep. More generally, for any retry budget: when the attempts
  before attempt \<open>n\<close> fail retryably and attempt \<open>n\<close> fails with an error that is
  not retryable or exhausts the budget, that last error is raised after \<open>n + 1\<close>
  attempts.
\<close>

theorem sendPrompt_raises_last_error:
  "(sendPromptOnce parse (run 0) = Inl e \<and> retryable e \<noteq> Some True
      \<longrightarrow> sendPrompt parse run chatId prompt 3 = (Inl e, [SpawnAgent chatId prompt]))
   \<and> ((\<forall>k<n. retryable_failure (sendPromptOnce parse (run k))) \<and> int n \<le> maxRetries
        \<and> sendPromptOnce parse (run n) = Inl e'
        \<and> (retryable e' \<noteq> Some True \<or> int n = maxRetries)
      \<longrightarrow> fst (sendPrompt parse run chatId prompt maxRetries) = Inl e'
          \<and> length (attempt_delays (snd (sendPrompt parse run chatId prompt maxRetries)) 0) = n + 1)"
proof (intro conjI impI)
  assume a: "sendPromptOnce parse (run 0) = Inl e \<and> retryable e \<noteq> Some True"
  then have "final_outcome 3 0 (sendPromptOnce parse (run 0))"
    by (simp add: final_outcome_def)
  then have "sendPrompt_from parse run chatId prompt 3 0 None
      = (sendPromptOnce parse (run 0), attempt_events chatId prompt 0)"
    by (intro sendPrompt_from_final) auto
  with a show "sendPrompt parse run chatId prompt 3 = (Inl e, [SpawnAgent chatId prompt])"
    by (simp add: sendPrompt_def attempt_events_def)
next
  assume b: "(\<forall>k<n. retryable_failure (sendPromptOnce parse (run k))) \<and> int n \<le> maxRetries
        \<and> sendPromptOnce parse (run n) = Inl e'
        \<and> (retryable e' \<noteq> Some True \<or> int n = maxRetries)"
  then have fin: "final_outcome maxRetries n (sendPromptOnce parse (run n))"
    by (auto simp: final_outcome_def)
  have run: "sendPrompt parse run chatId prompt maxRetries
      = (sendPromptOnce parse (run n), attempts_between chatId prompt 0 (Suc n))"
    unfolding sendPrompt_def using b fin
    by (intro sendPrompt_from_run) auto
  show "fst (sendPrompt parse run chatId prompt maxRetries) = Inl e'"
    using run b by simp
  show "length (attempt_delays (snd (sendPrompt parse run chatId prompt maxRetries)) 0) = n + 1"
    by (simp only: run snd_conv attempt_delays_between) simp
qed

theorem sendPrompt_raises_last_error_witness:
  "sendPrompt example_parse denied_run ''chat-1'' ''hello'' 3
     = (Inl (JsError ''permission denied'' (Some False)), [SpawnAgent ''chat-1'' ''hello''])
   \<and> fst (sendPrompt example_parse busy_run ''chat-1'' ''hello'' 3)
     = Inl (JsError ''503 Service Unavailable'' (Some True))
   \<and> length (attempt_delays (snd (sendPrompt example_parse busy_run ''chat-1'' ''hello'' 3)) 0) = 4"
proof -
  have d: "sendPromptOnce example_parse (denied_run 0) = Inl (JsError ''permission denied'' (Some False))"
    by code_simp
  have b: "sendPromptOnce example_parse (busy_run k) = Inl (JsError ''503 Service Unavailable'' (Some True))" for k
    unfolding busy_run_def by code_simp
  have first: "sendPrompt example_parse denied_run ''chat-1'' ''hello'' 3
     = (Inl (JsError ''permission denied'' (Some False)), [SpawnAgent ''chat-1'' ''hello''])"
    using sendPrompt_raises_last_error[of example_parse denied_run "JsError ''permission denied'' (Some False)"
       "''chat-1''" "''hello''" 0 3 "JsError ''permission denied'' (Some False)"] d
    by simp
  have last: "fst (sendPrompt example_parse busy_run ''chat-1'' ''hello'' 3)
     = Inl (JsError ''503 Service Unavailable'' (Some True))
   \<and> length (attempt_delays (snd (sendPrompt example_parse busy_run ''chat-1'' ''hello'' 3)) 0) = 3 + 1"
    using sendPrompt_raises_last_error[of example_parse busy_run "JsError ''503 Service Unavailable'' (Some True)"
       "''chat-1''" "''hello''" 3 3 "JsError ''503 Service Unavailable'' (Some True)"] b
    by (simp add: retryable_failure_def)
  show ?thesis using first last by simp
qed

text \<open>
  Claim C1 says that a structured response with the error flag set and the result
  text \<^verbatim>\<open>resource_exhausted: quota\<close> is classified retryable and retried. The code
  does not do so: the text matches a retryable pattern, yet the rejection built
  from the response carries no \<^verbatim>\<open>retryable\<close> property, so \<^verbatim>\<open>sendPrompt\<close> raises it
  after the first attempt, without a sleep and without a second process.
\<close>

theorem sendPrompt_error_flag_not_retried:
  "isRetryable ''resource_exhausted: quota''
   \<and> sendPromptOnce example_parse (quota_run 0) = Inl (JsError ''resource_exhausted: quota'' None)
   \<and> sendPrompt example_parse quota_run ''chat-1'' ''hello'' 3
       = (Inl (JsError ''resource_exhausted: quota'' None), [SpawnAgent ''chat-1'' ''hello''])"
proof -
  have r: "isRetryable ''resource_exhausted: quota''" by code_simp
  have o: "sendPromptOnce example_parse (quota_run 0) = Inl (JsError ''resource_exhausted: quota'' None)"
    by code_simp
  have "final_outcome 3 0 (sendPromptOnce example_parse (quota_run 0))"
    by (simp add: o final_outcome_def)
  then have "sendPrompt_from example_parse quota_run ''chat-1'' ''hello'' 3 0 None
      = (sendPromptOnce example_parse (quota_run 0), attempt_events ''chat-1'' ''hello'' 0)"
    by (intro sendPrompt_from_final) auto
  then show ?thesis using r o by (simp add: sendPrompt_def attempt_events_def)
qed

section \<open>One attempt\<close>

text \<open>
  Claim C8. When the trimmed output of the process contains \<^verbatim>\<open>error\<close> in any
  letter case and does not start with \<^verbatim>\<open>{\<close>, the attempt is rejected with that
  output as the message, whatever the exit code (zero included).
\<close>

theorem sendPromptOnce_error_text_rejected:
  assumes "str_includes (toLowerCase (trim out)) ''error''"
    and "\<not> startsWith (trim out) ''{''"
  shows "sendPromptOnce parse (Closed code out err)
           = Inl (JsError (trim out) (Some (isRetryable (trim out @ err))))"
  using assms by (simp add: sendPromptOnce_def Let_def)

theorem sendPromptOnce_error_text_rejected_witness:
  "str_includes (toLowerCase (trim '' Build finished. ERROR count: 0 '')) ''error''
   \<and> \<not> startsWith (trim '' Build finished. ERROR count: 0 '') ''{''
   \<and> sendPromptOnce example_parse (Closed (Some 0) '' Build finished. ERROR count: 0 '' [])
       = Inl (JsError ''Build finished. ERROR count: 0'' (Some False))"
proof -
  have t: "trim '' Build finished. ERROR count: 0 '' = ''Build finished. ERROR count: 0''"
    by code_simp
  have h1: "str_includes (toLowerCase (trim '' Build finished. ERROR count: 0 '')) ''error''"
    by code_simp
  have h2: "\<not> startsWith (trim '' Build finished. ERROR count: 0 '') ''{''"
    by code_simp
  have r: "isRetryable (''Build finished. ERROR count: 0'' @ []) = False"
    by code_simp
  show ?thesis
    using sendPromptOnce_error_text_rejected[OF h1 h2, of example_parse "Some 0" "[]"] h1 h2
    by (simp only: t r) simp
qed

text \<open>
  Claim C2, amended. For an attempt whose process exits with code 0 and whose
  trimmed output starts with \<^verbatim>\<open>{\<close> or does not contain \<^verbatim>\<open>error\<close>: when the output
  cannot be parsed (\<^verbatim>\<open>JSON.parse\<close> throws, or gives \<^verbatim>\<open>null\<close>), the attempt succeeds
  with the trimmed raw text if that text is not empty, and is rejected with
  \<^verbatim>\<open>Empty response from Cursor\<close> if it is empty.
\<close>

theorem sendPromptOnce_lenient_fallback:
  assumes "\<not> str_includes (toLowerCase (trim out)) ''error'' \<or> startsWith (trim out) ''{''"
    and "parse (trim out) = None \<or> parse (trim out) = Some JNull"
  shows "sendPromptOnce parse (Closed (Some 0) out err)
           = (if trim out \<noteq> [] then Inr (Some (JStr (trim out)))
              else Inl (JsError ''Empty response from Cursor'' None))"
  using assms by (auto simp: sendPromptOnce_def lenient_fallback_def Let_def)

theorem sendPromptOnce_lenient_fallback_witness:
  "\<not> str_includes (toLowerCase (trim ''all good'')) ''error''
   \<and> example_parse (trim ''all good'') = None
   \<and> sendPromptOnce example_parse (Closed (Some 0) ''all good'' []) = Inr (Some (JStr ''all good''))"
proof -
  have t: "trim ''all good'' = ''all good''" by code_simp
  have h1: "\<not> str_includes (toLowerCase (trim ''all good'')) ''error''"
    by code_simp
  have h2: "example_parse (trim ''all good'') = None"
    by code_simp
  show ?thesis
    using sendPromptOnce_lenient_fallback[of "''all good''" example_parse "[]"] h1 h2
    by (simp only: t) simp
qed

text \<open>
  The claim as first stated fails: this output cannot be parsed and is not empty,
  the process exits with code 0, and the attempt is rejected.
\<close>

theorem sendPromptOnce_unparsable_error_text_counterexample:
  "example_parse (trim ''Internal error: gateway closed'') = None
   \<and> trim ''Internal error: gateway closed'' \<noteq> []
   \<and> sendPromptOnce example_parse (Closed (Some 0) ''Internal error: gateway closed'' [])
       = Inl (JsError ''Internal error: gateway closed'' (Some False))"
  by code_simp

section \<open>What a dispatched message can change\<close>

lemma dispatched_append: "dispatched (xs @ ys) = dispatched xs @ dispatched ys"
  by (induction xs rule: dispatched.induct) auto

lemma quiet_refl: "quiet w w"
  by (simp add: quiet_def)

lemma quiet_trans: "quiet w w1 \<Longrightarrow> quiet w1 w2 \<Longrightarrow> quiet w w2"
  by (auto simp: quiet_def dispatched_append)

lemma quiet_emit: "dispatched [e] = [] \<Longrightarrow> quiet w (emit e w)"
  by (simp add: quiet_def emit_def)

lemma quiet_events: "dispatched evs = [] \<Longrightarrow> quiet w (w\<lparr>trace := trace w @ evs\<rparr>)"
  by (simp add: quiet_def)

lemma quiet_postMessage: "quiet w (snd (postMessage env c t w))"
  by (simp add: postMessage_def quiet_emit)

lemma quiet_updateMessage: "quiet w (snd (updateMessage env c ts t w))"
  by (simp add: updateMessage_def quiet_emit)

lemma quiet_addReaction: "quiet w (addReaction c ts e w)"
  by (simp add: addReaction_def quiet_emit)

lemma quiet_removeReaction: "quiet w (removeReaction c ts e w)"
  by (simp add: removeReaction_def quiet_emit)

lemma quiet_createChat: "quiet w (snd (createChat env p w))"
  by (auto simp: createChat_def Let_def quiet_emit split: proc_result.splits)

lemma quiet_saveChannelData: "quiet w (saveChannelData cfg c d w)"
  by (simp add: saveChannelData_def quiet_def)

lemma snd_done_unit: "snd (done_unit r) = snd r"
  by (auto simp: done_unit_def split: prod.splits sum.splits)

lemma quiet_try_catch:
  assumes "quiet w (snd r)" and "\<And>err w2. quiet w2 (snd (handler err w2))"
  shows "quiet w (snd (try_catch r handler))"
proof (cases r)
  case (Pair res w1)
  show ?thesis
  proof (cases res)
    case (Inl err)
    with Pair assms(1) assms(2)[of w1 err] show ?thesis
      by (auto simp: try_catch_def intro: quiet_trans)
  next
    case (Inr u)
    with Pair assms(1) show ?thesis by (simp add: try_catch_def)
  qed
qed

lemma dispatched_sendPrompt_from:
  "dispatched (snd (sendPrompt_from parse run c p M a le)) = []"
proof (induction parse run c p M a le rule: sendPrompt_from.induct)
  case (1 parse run c p M a le)
  show ?case
  proof (cases "int a \<le> M")
    case False
    then show ?thesis by (simp add: sendPrompt_from.simps[of parse run c p M a le])
  next
    case True
    show ?thesis
    proof (cases "sendPromptOnce parse (run a)")
      case (Inr v)
      with True show ?thesis
        by (simp add: sendPrompt_from.simps[of parse run c p M a le] dispatched_append)
    next
      case (Inl err)
      show ?thesis
      proof (cases "\<not> (retryable err = Some True) \<or> int a \<ge> M")
        case stop: True
        with True Inl show ?thesis
          by (auto simp: sendPrompt_from.simps[of parse run c p M a le] dispatched_append)
      next
        case go: False
        have "dispatched (snd (sendPrompt_from parse run c p M (a + 1) (Some err))) = []"
          using "1.IH"[OF True refl Inl go] .
        with True Inl go show ?thesis
          by (auto simp: sendPrompt_from.simps[of parse run c p M a le] dispatched_append
                split: prod.splits)
      qed
    qed
  qed
qed

lemma quiet_handleProjectsCommand: "quiet w (snd (handleProjectsCommand env cfg c w))"
  unfolding handleProjectsCommand_def
  by (auto simp: Let_def snd_done_unit quiet_postMessage quiet_emit
        intro!: quiet_try_catch quiet_trans[OF quiet_emit quiet_postMessage] split: sum.splits)

lemma quiet_handleDiffCommand: "quiet w (snd (handleDiffCommand env c d w))"
  unfolding handleDiffCommand_def
  by (auto simp: Let_def snd_done_unit quiet_postMessage quiet_emit
        intro!: quiet_try_catch quiet_trans[OF quiet_emit quiet_postMessage] split: sum.splits option.splits)

lemma quiet_handleNewCommand: "quiet w (snd (handleNewCommand env cfg c name w))"
proof -
  let ?path = "resolveProjectPath cfg name"
  show ?thesis
  proof (cases "fs_existsSync env ?path")
    case False
    then show ?thesis
      by (simp add: handleNewCommand_def Let_def snd_done_unit quiet_postMessage)
  next
    case True
    obtain r w1 where pm: "postMessage env c (CreatingConversation ?path) w = (r, w1)"
      by (cases "postMessage env c (CreatingConversation ?path) w")
    then have q1: "quiet w w1" using quiet_postMessage[of w env c "CreatingConversation ?path"] by simp
    show ?thesis
    proof (cases r)
      case (Inl err)
      with True pm q1 show ?thesis by (simp add: handleNewCommand_def Let_def)
    next
      case (Inr statusTs)
      have body: "quiet w1 (snd (case createChat env ?path w1 of
                    (Inl err, w2) \<Rightarrow> (Inl err, w2)
                  | (Inr chatId, w2) \<Rightarrow>
                      let w3 = saveChannelData cfg c
                                 \<lparr>projectPath = ?path, cursorChatId = chatId,
                                  createdAt = clock_now env (trace w2)\<rparr> w2
                      in if present statusTs
                         then updateMessage env c (case statusTs of None \<Rightarrow> [] | Some t \<Rightarrow> t)
                                (StartedConversation ?path) w3
                         else (Inr (), w3)))"
        using quiet_createChat[of w1 env ?path]
        by (auto simp: Let_def split: prod.splits sum.splits
              intro: quiet_trans[OF _ quiet_saveChannelData]
                     quiet_trans[OF quiet_trans[OF _ quiet_saveChannelData] quiet_updateMessage])
      have "quiet w1 (snd (handleNewCommand env cfg c name w))"
        using True pm Inr
        by (simp add: handleNewCommand_def Let_def)
           (intro quiet_try_catch body, auto simp: snd_done_unit quiet_postMessage quiet_updateMessage)
      with q1 show ?thesis by (rule quiet_trans)
    qed
  qed
qed

lemma quiet_react_post:
  assumes "quiet w w1"
  shows "quiet w (snd (done_unit (postMessage env c n
            (addReaction c ts e (removeReaction c ts e' w1)))))"
proof -
  have a: "quiet w1 (removeReaction c ts e' w1)" by (rule quiet_removeReaction)
  have b: "quiet (removeReaction c ts e' w1) (addReaction c ts e (removeReaction c ts e' w1))"
    by (rule quiet_addReaction)
  have p: "quiet (addReaction c ts e (removeReaction c ts e' w1))
             (snd (postMessage env c n (addReaction c ts e (removeReaction c ts e' w1))))"
    by (rule quiet_postMessage)
  from assms a have "quiet w (removeReaction c ts e' w1)" by (rule quiet_trans)
  from this b have "quiet w (addReaction c ts e (removeReaction c ts e' w1))" by (rule quiet_trans)
  from this p show ?thesis unfolding snd_done_unit by (rule quiet_trans)
qed

lemma quiet_handlePrompt: "quiet w (snd (handlePrompt env c ts prompt d w))"
proof -
  define w1 where "w1 = addReaction c ts ''hourglass_flowing_sand'' w"
  define sp where "sp = sendPrompt (JSON_parse env)
                (run_agent env (trace w1) (cursorChatId d) prompt) (cursorChatId d) prompt 3"
  have q1: "quiet w w1" unfolding w1_def by (rule quiet_addReaction)
  have d0: "dispatched (snd sp) = []"
    unfolding sp_def sendPrompt_def by (rule dispatched_sendPrompt_from)
  have ev: "quiet w1 (w1\<lparr>trace := trace w1 @ snd sp\<rparr>)"
    using d0 by (rule quiet_events)
  have body: "quiet w1 (snd (case sp of
           (Inl err, evs) \<Rightarrow> (Inl err, w1\<lparr>trace := trace w1 @ evs\<rparr>)
         | (Inr response, evs) \<Rightarrow>
             done_unit (postMessage env c (AgentResponse response)
               (addReaction c ts ''white_check_mark''
                 (removeReaction c ts ''hourglass_flowing_sand'' (w1\<lparr>trace := trace w1 @ evs\<rparr>))))))"
  proof (cases sp)
    case (Pair res evs)
    with ev have ev': "quiet w1 (w1\<lparr>trace := trace w1 @ evs\<rparr>)" by simp
    show ?thesis
    proof (cases res)
      case (Inl err)
      with Pair ev' show ?thesis by simp
    next
      case (Inr response)
      with Pair quiet_react_post[OF ev'] show ?thesis by simp
    qed
  qed
  have "quiet w1 (snd (handlePrompt env c ts prompt d w))"
    unfolding handlePrompt_def Let_def w1_def[symmetric] sp_def[symmetric]
    by (rule quiet_try_catch[OF body quiet_react_post[OF quiet_refl]])
  with q1 show ?thesis by (rule quiet_trans)
qed

lemma processMessage_effect:
  "stateFile (snd (processMessage env cfg c m w)) = stateFile w
   \<and> (\<exists>evs. trace (snd (processMessage env cfg c m w)) = trace w @ Dispatch c m # evs
            \<and> dispatched evs = [])"
proof -
  let ?w = "emit (Dispatch c m) w"
  have "quiet ?w (snd (processMessage env cfg c m w))"
    by (auto simp: processMessage_def Let_def snd_done_unit quiet_postMessage
          quiet_handleProjectsCommand quiet_handleNewCommand quiet_handleDiffCommand
          quiet_handlePrompt split: option.splits)
  then show ?thesis by (auto simp: quiet_def emit_def)
qed

section \<open>The poll cycle\<close>

lemma getLastSeenTs_set_same: "getLastSeenTs c (setLastSeenTs c ts w) = Some ts"
  by (simp add: getLastSeenTs_def setLastSeenTs_def loadPollState_def savePollState_def Let_def
        split: option.splits)

lemma getLastSeenTs_set_other:
  "c \<noteq> c' \<Longrightarrow> getLastSeenTs c (setLastSeenTs c' ts w) = getLastSeenTs c w"
  by (simp add: getLastSeenTs_def setLastSeenTs_def loadPollState_def savePollState_def Let_def
        split: option.splits)

lemma getLastSeenTs_cong: "stateFile w' = stateFile w \<Longrightarrow> getLastSeenTs c w' = getLastSeenTs c w"
  by (simp add: getLastSeenTs_def loadPollState_def)

lemma setLastSeenTs_frame:
  "trace (setLastSeenTs c ts w) = trace w \<and> channelFiles (setLastSeenTs c ts w) = channelFiles w"
  by (simp add: setLastSeenTs_def savePollState_def Let_def)

lemma getHistory_world:
  "snd (getHistory env c oldest w)
     = emit (ConversationsHistory c (if present oldest then oldest else None)) w"
  by (simp add: getHistory_def Let_def split: sum.splits option.splits)

lemma pollMessages_effect:
  "pollMessages env cfg c ms w = (r, w') \<Longrightarrow>
     \<exists>ds. dispatched (trace w') = dispatched (trace w) @ map (Pair c) ds
        \<and> set ds \<subseteq> set ms
        \<and> (case r of
              Inr _ \<Rightarrow> getLastSeenTs c w' = (if ms = [] then getLastSeenTs c w else Some (msg_ts (last ms)))
            | Inl err \<Rightarrow> ds \<noteq> [] \<and> getLastSeenTs c w' = Some (msg_ts (last ds)))"
proof (induction ms arbitrary: w)
  case Nil
  then show ?case by auto
next
  case (Cons m ms)
  let ?w1 = "setLastSeenTs c (msg_ts m) w"
  have w1: "dispatched (trace ?w1) = dispatched (trace w)" "getLastSeenTs c ?w1 = Some (msg_ts m)"
    by (simp_all add: setLastSeenTs_frame getLastSeenTs_set_same)
  show ?case
  proof (cases "present (msg_bot_id m) \<or> (loadChannelData cfg c ?w1 = None \<and> \<not> mentionsBot cfg (msg_text m))")
    case True
    then have "pollMessages env cfg c ms ?w1 = (r, w')"
      using Cons.prems by (auto simp: Let_def split: if_splits)
    from Cons.IH[OF this] obtain ds where ds:
      "dispatched (trace w') = dispatched (trace ?w1) @ map (Pair c) ds" "set ds \<subseteq> set ms"
      "(case r of
              Inr _ \<Rightarrow> getLastSeenTs c w' = (if ms = [] then getLastSeenTs c ?w1 else Some (msg_ts (last ms)))
            | Inl err \<Rightarrow> ds \<noteq> [] \<and> getLastSeenTs c w' = Some (msg_ts (last ds)))"
      by blast
    show ?thesis
      by (rule exI[of _ ds]) (use ds w1 in \<open>auto split: sum.splits\<close>)
  next
    case False
    obtain r1 w2 where pm: "processMessage env cfg c m ?w1 = (r1, w2)"
      by (cases "processMessage env cfg c m ?w1")
    from processMessage_effect[of env cfg c m ?w1] pm
    have w2: "stateFile w2 = stateFile ?w1" "dispatched (trace w2) = dispatched (trace w) @ [(c, m)]"
      by (auto simp: dispatched_append w1)
    then have c2: "getLastSeenTs c w2 = Some (msg_ts m)"
      using getLastSeenTs_cong[of w2 ?w1 c] w1 by simp
    show ?thesis
    proof (cases r1)
      case (Inl err)
      with False pm Cons.prems have "r = Inl err" "w' = w2" by (auto simp: Let_def)
      then show ?thesis
        by (intro exI[of _ "[m]"]) (use w2 c2 in auto)
    next
      case (Inr u)
      with False pm Cons.prems have "pollMessages env cfg c ms w2 = (r, w')" by (auto simp: Let_def)
      from Cons.IH[OF this] obtain ds where ds:
        "dispatched (trace w') = dispatched (trace w2) @ map (Pair c) ds" "set ds \<subseteq> set ms"
        "(case r of
              Inr _ \<Rightarrow> getLastSeenTs c w' = (if ms = [] then getLastSeenTs c w2 else Some (msg_ts (last ms)))
            | Inl err \<Rightarrow> ds \<noteq> [] \<and> getLastSeenTs c w' = Some (msg_ts (last ds)))"
        by blast
      show ?thesis
        by (rule exI[of _ "m # ds"]) (use ds w2 c2 in \<open>auto split: sum.splits\<close>)
    qed
  qed
qed

lemma pollChannel_try_effect:
  assumes "getHistory env c lastSeen w = (h, w1)"
    and "pollChannel_try env cfg c lastSeen w = (r, w')"
  shows "case h of
           Inl err \<Rightarrow> r = Inl err \<and> w' = w1
         | Inr msgs \<Rightarrow>
             \<exists>ds. dispatched (trace w') = dispatched (trace w) @ map (Pair c) ds
               \<and> set ds \<subseteq> set msgs
               \<and> (\<not> present lastSeen \<and> msgs \<noteq> [] \<longrightarrow>
                    ds = [] \<and> r = Inr () \<and> w' = setLastSeenTs c (msg_ts (last msgs)) w1)
               \<and> (case r of
                    Inr _ \<Rightarrow> getLastSeenTs c w' =
                               (if msgs = [] then getLastSeenTs c w else Some (msg_ts (last msgs)))
                  | Inl err \<Rightarrow> ds \<noteq> [] \<and> getLastSeenTs c w' = Some (msg_ts (last ds)))"
proof (cases h)
  case (Inl err)
  with assms show ?thesis by (simp add: pollChannel_try_def)
next
  case (Inr msgs)
  have w1: "w1 = emit (ConversationsHistory c (if present lastSeen then lastSeen else None)) w"
    using getHistory_world[of env c lastSeen w] assms(1) by simp
  then have w1f: "dispatched (trace w1) = dispatched (trace w)" "getLastSeenTs c w1 = getLastSeenTs c w"
    by (simp_all add: emit_def dispatched_append getLastSeenTs_def loadPollState_def)
  show ?thesis
  proof (cases "\<not> present lastSeen \<and> msgs \<noteq> []")
    case True
    with assms Inr have "r = Inr ()" "w' = setLastSeenTs c (msg_ts (last msgs)) w1"
      by (auto simp: pollChannel_try_def)
    with True Inr w1f show ?thesis
      by (auto simp: setLastSeenTs_frame getLastSeenTs_set_same intro!: exI[of _ "[]"])
  next
    case False
    with assms Inr have "pollMessages env cfg c msgs w1 = (r, w')"
      by (auto simp: pollChannel_try_def)
    from pollMessages_effect[OF this] obtain ds where ds:
      "dispatched (trace w') = dispatched (trace w1) @ map (Pair c) ds" "set ds \<subseteq> set msgs"
      "(case r of
          Inr _ \<Rightarrow> getLastSeenTs c w' = (if msgs = [] then getLastSeenTs c w1 else Some (msg_ts (last msgs)))
        | Inl err \<Rightarrow> ds \<noteq> [] \<and> getLastSeenTs c w' = Some (msg_ts (last ds)))"
      by blast
    show ?thesis
      unfolding Inr sum.case
      by (rule exI[of _ ds]) (use ds False w1f in \<open>auto split: sum.splits\<close>)
  qed
qed








lemma first_poll_effect:
  assumes "getLastSeenTs c w = None"
    and "fst (getHistory env c None w) = Inr msgs"
    and "msgs \<noteq> []"
  shows "pollChannel env cfg c w
          = setLastSeenTs c (msg_ts (last msgs)) (emit (ConversationsHistory c None) w)"
proof -
  have gh: "getHistory env c None w = (Inr msgs, emit (ConversationsHistory c None) w)"
    using assms(2) getHistory_world[of env c None w]
    by (simp add: present_def prod_eq_iff)
  show ?thesis
    using assms(1,3) gh by (simp add: pollChannel_def pollChannel_try_def Let_def present_def)
qed

text \<open>
  Claim C5. When the cursor of a channel is absent and the history fetch returns
  \<open>N > 0\<close> messages, the poll dispatches none of them (it makes no call but the
  fetch and writes no channel file) and sets the cursor to the timestamp of the
  newest, the last of the oldest-first list.
\<close>

theorem first_poll_baseline:
  assumes "getLastSeenTs c w = None"
    and "fst (getHistory env c None w) = Inr msgs"
    and "msgs \<noteq> []"
  shows "getLastSeenTs c (pollChannel env cfg c w) = Some (msg_ts (last msgs))
       \<and> dispatched (trace (pollChannel env cfg c w)) = dispatched (trace w)
       \<and> trace (pollChannel env cfg c w) = trace w @ [ConversationsHistory c None]
       \<and> channelFiles (pollChannel env cfg c w) = channelFiles w"
  by (simp add: first_poll_effect[OF assms] getLastSeenTs_set_same setLastSeenTs_frame emit_def
        dispatched_append)

theorem first_poll_baseline_witness:
  "getLastSeenTs ''C1'' fresh_world = None
   \<and> fst (getHistory (example_env two_messages accepted_post) ''C1'' None fresh_world)
       = Inr [toSlackMessage (user_message ''101'' ''<@U1> /projects''),
              toSlackMessage (user_message ''102'' ''hi'')]
   \<and> getLastSeenTs ''C1''
        (pollChannel (example_env two_messages accepted_post) example_cfg ''C1'' fresh_world)
       = Some ''102''
   \<and> trace (pollChannel (example_env two_messages accepted_post) example_cfg ''C1'' fresh_world)
       = [ConversationsHistory ''C1'' None]"
proof -
  let ?env = "example_env two_messages accepted_post"
  have c: "getLastSeenTs ''C1'' fresh_world = None" by code_simp
  have h: "fst (getHistory ?env ''C1'' None fresh_world)
       = Inr [toSlackMessage (user_message ''101'' ''<@U1> /projects''),
              toSlackMessage (user_message ''102'' ''hi'')]"
    by code_simp
  have t: "trace fresh_world = []" by (simp add: fresh_world_def)
  show ?thesis
    using first_poll_baseline[OF c h, of example_cfg] c h t
    by (simp add: toSlackMessage_def user_message_def)
qed

lemma getHistory_messages:
  assumes "fst (getHistory env c oldest w) = Inr msgs" and "x \<in> set msgs"
  shows "\<exists>page r s. conversations_history env (trace w) c (if present oldest then oldest else None)
                      = Inr (Some page)
           \<and> r \<in> set page \<and> raw_ts r = Some s \<and> s \<noteq> [] \<and> msg_ts x = s"
proof (cases "conversations_history env (trace w) c (if present oldest then oldest else None)")
  case (Inl err)
  with assms show ?thesis by (simp add: getHistory_def Let_def)
next
  case (Inr answer)
  show ?thesis
  proof (cases answer)
    case None
    with Inr assms show ?thesis by (simp add: getHistory_def Let_def)
  next
    case (Some page)
    with Inr assms(1) have
      "msgs = rev (map toSlackMessage (filter (\<lambda>m. present (raw_ts m) \<and> raw_text m \<noteq> None) page))"
      by (simp add: getHistory_def Let_def)
    with assms(2) obtain r where r: "r \<in> set page" "present (raw_ts r)" "x = toSlackMessage r"
      by auto
    then obtain s where s: "raw_ts r = Some s" "s \<noteq> []"
      by (auto simp: present_def split: option.splits)
    with r have "msg_ts x = s" by (simp add: toSlackMessage_def)
    with Inr Some r(1) s show ?thesis by blast
  qed
qed

lemma pollChannel_effect:
  "\<exists>ds. dispatched (trace (pollChannel env cfg ch w)) = dispatched (trace w) @ map (Pair ch) ds
      \<and> (\<forall>x\<in>set ds. \<exists>msgs. fst (getHistory env ch (getLastSeenTs ch w) w) = Inr msgs \<and> x \<in> set msgs)
      \<and> (getLastSeenTs ch (pollChannel env cfg ch w) = getLastSeenTs ch w
           \<or> (\<exists>msgs x. fst (getHistory env ch (getLastSeenTs ch w) w) = Inr msgs \<and> x \<in> set msgs
                 \<and> getLastSeenTs ch (pollChannel env cfg ch w) = Some (msg_ts x)))"
proof -
  obtain h w1 where g: "getHistory env ch (getLastSeenTs ch w) w = (h, w1)"
    by (cases "getHistory env ch (getLastSeenTs ch w) w")
  obtain r w2 where t: "pollChannel_try env cfg ch (getLastSeenTs ch w) w = (r, w2)"
    by (cases "pollChannel_try env cfg ch (getLastSeenTs ch w) w")
  have pc: "dispatched (trace (pollChannel env cfg ch w)) = dispatched (trace w2)"
           "getLastSeenTs ch (pollChannel env cfg ch w) = getLastSeenTs ch w2"
    using t by (simp_all add: pollChannel_def Let_def emit_def dispatched_append
                  getLastSeenTs_def loadPollState_def split: sum.splits)
  note eff = pollChannel_try_effect[OF g t]
  show ?thesis
  proof (cases h)
    case (Inl err)
    with eff have "w2 = w1" by simp
    moreover have "w1 = emit (ConversationsHistory ch (if present (getLastSeenTs ch w)
                        then getLastSeenTs ch w else None)) w"
      using getHistory_world[of env ch "getLastSeenTs ch w" w] g by simp
    ultimately have "dispatched (trace w2) = dispatched (trace w)"
                    "getLastSeenTs ch w2 = getLastSeenTs ch w"
      by (simp_all add: emit_def dispatched_append getLastSeenTs_def loadPollState_def)
    with pc show ?thesis by (intro exI[of _ "[]"]) simp
  next
    case (Inr msgs)
    with eff obtain ds where ds:
      "dispatched (trace w2) = dispatched (trace w) @ map (Pair ch) ds" "set ds \<subseteq> set msgs"
      "(case r of
          Inr _ \<Rightarrow> getLastSeenTs ch w2 = (if msgs = [] then getLastSeenTs ch w else Some (msg_ts (last msgs)))
        | Inl err \<Rightarrow> ds \<noteq> [] \<and> getLastSeenTs ch w2 = Some (msg_ts (last ds)))"
      by auto
    have f: "fst (getHistory env ch (getLastSeenTs ch w) w) = Inr msgs" using g Inr by simp
    have cur: "getLastSeenTs ch w2 = getLastSeenTs ch w
                 \<or> (\<exists>x. x \<in> set msgs \<and> getLastSeenTs ch w2 = Some (msg_ts x))"
    proof (cases r)
      case ok: (Inr u)
      show ?thesis
      proof (cases "msgs = []")
        case True
        with ok ds(3) show ?thesis by simp
      next
        case False
        then have "last msgs \<in> set msgs" by (rule last_in_set)
        moreover from False ok ds(3) have "getLastSeenTs ch w2 = Some (msg_ts (last msgs))" by simp
        ultimately show ?thesis by blast
      qed
    next
      case bad: (Inl e)
      with ds(3) have "ds \<noteq> []" "getLastSeenTs ch w2 = Some (msg_ts (last ds))" by simp_all
      moreover from this ds(2) have "last ds \<in> set msgs" using last_in_set by blast
      ultimately show ?thesis by blast
    qed
    show ?thesis
      by (rule exI[of _ ds]) (use ds(1,2) f cur pc in auto)
  qed
qed

lemma pollMessages_other_cursor:
  "c \<noteq> ch \<Longrightarrow> pollMessages env cfg ch ms w = (r, w') \<Longrightarrow> getLastSeenTs c w' = getLastSeenTs c w"
proof (induction ms arbitrary: w)
  case Nil
  then show ?case by simp
next
  case (Cons x ms)
  let ?w1 = "setLastSeenTs ch (msg_ts x) w"
  have w1: "getLastSeenTs c ?w1 = getLastSeenTs c w"
    using Cons.prems(1) by (rule getLastSeenTs_set_other)
  show ?case
  proof (cases "present (msg_bot_id x) \<or> (loadChannelData cfg ch ?w1 = None \<and> \<not> mentionsBot cfg (msg_text x))")
    case True
    then have "pollMessages env cfg ch ms ?w1 = (r, w')"
      using Cons.prems(2) by (auto simp: Let_def split: if_splits)
    from Cons.IH[OF Cons.prems(1) this] w1 show ?thesis by simp
  next
    case False
    obtain r1 w2 where pm: "processMessage env cfg ch x ?w1 = (r1, w2)"
      by (cases "processMessage env cfg ch x ?w1")
    from processMessage_effect[of env cfg ch x ?w1] pm
    have "stateFile w2 = stateFile ?w1" by simp
    then have c2: "getLastSeenTs c w2 = getLastSeenTs c w"
      using getLastSeenTs_cong[of w2 ?w1 c] w1 by simp
    show ?thesis
    proof (cases r1)
      case (Inl err)
      with False pm Cons.prems(2) have "w' = w2" by (auto simp: Let_def)
      with c2 show ?thesis by simp
    next
      case (Inr u)
      with False pm Cons.prems(2) have "pollMessages env cfg ch ms w2 = (r, w')"
        by (auto simp: Let_def)
      from Cons.IH[OF Cons.prems(1) this] c2 show ?thesis by simp
    qed
  qed
qed

lemma pollChannel_other_cursor:
  assumes "c \<noteq> ch"
  shows "getLastSeenTs c (pollChannel env cfg ch w) = getLastSeenTs c w"
proof -
  obtain h w1 where g: "getHistory env ch (getLastSeenTs ch w) w = (h, w1)"
    by (cases "getHistory env ch (getLastSeenTs ch w) w")
  obtain r w2 where t: "pollChannel_try env cfg ch (getLastSeenTs ch w) w = (r, w2)"
    by (cases "pollChannel_try env cfg ch (getLastSeenTs ch w) w")
  have w1: "getLastSeenTs c w1 = getLastSeenTs c w"
    using getHistory_world[of env ch "getLastSeenTs ch w" w] g
    by (simp add: emit_def getLastSeenTs_def loadPollState_def)
  have "getLastSeenTs c w2 = getLastSeenTs c w"
  proof (cases h)
    case (Inl err)
    with g t w1 show ?thesis by (simp add: pollChannel_try_def)
  next
    case (Inr msgs)
    show ?thesis
    proof (cases "\<not> present (getLastSeenTs ch w) \<and> length msgs > 0")
      case True
      with g t Inr have "w2 = setLastSeenTs ch (msg_ts (last msgs)) w1"
        by (auto simp: pollChannel_try_def)
      with w1 assms show ?thesis by (simp add: getLastSeenTs_set_other)
    next
      case False
      with g t Inr have "pollMessages env cfg ch msgs w1 = (r, w2)"
        by (auto simp: pollChannel_try_def)
      from pollMessages_other_cursor[OF assms this] w1 show ?thesis by simp
    qed
  qed
  then show ?thesis
    using t by (simp add: pollChannel_def Let_def emit_def getLastSeenTs_def loadPollState_def
                  split: sum.splits)
qed

lemma later_polls_skip_seen:
  assumes irrefl: "\<forall>a. \<not> newer a a"
    and trans: "\<forall>a b d. newer a b \<and> newer b d \<longrightarrow> newer a d"
    and exclusive: "\<forall>evs t page r s. conversations_history env evs c (Some t) = Inr (Some page)
                       \<and> r \<in> set page \<and> raw_ts r = Some s \<longrightarrow> newer s t"
    and cur: "getLastSeenTs c w = Some t" "t \<noteq> []" "t = msg_ts m \<or> newer t (msg_ts m)"
    and nd: "(c, m) \<notin> set (dispatched (trace w))"
  shows "(c, m) \<notin> set (dispatched (trace (pollChannels env cfg chs w)))"
  using cur nd
proof (induction chs arbitrary: w t)
  case Nil
  then show ?case by simp
next
  case (Cons ch chs)
  let ?w' = "pollChannel env cfg ch w"
  have "(\<exists>t'. getLastSeenTs c ?w' = Some t' \<and> t' \<noteq> [] \<and> (t' = msg_ts m \<or> newer t' (msg_ts m)))
        \<and> (c, m) \<notin> set (dispatched (trace ?w'))"
  proof -
    from pollChannel_effect[of env cfg ch w] obtain ds where ds:
      "dispatched (trace ?w') = dispatched (trace w) @ map (Pair ch) ds"
      "\<forall>x\<in>set ds. \<exists>msgs. fst (getHistory env ch (getLastSeenTs ch w) w) = Inr msgs \<and> x \<in> set msgs"
      "getLastSeenTs ch ?w' = getLastSeenTs ch w
        \<or> (\<exists>msgs x. fst (getHistory env ch (getLastSeenTs ch w) w) = Inr msgs \<and> x \<in> set msgs
              \<and> getLastSeenTs ch ?w' = Some (msg_ts x))"
      by blast
    show ?thesis
    proof (cases "ch = c")
      case False
      then have "getLastSeenTs c ?w' = getLastSeenTs c w"
        using pollChannel_other_cursor[of c ch env cfg w] by simp
      with Cons.prems have "\<exists>t'. getLastSeenTs c ?w' = Some t' \<and> t' \<noteq> []
                               \<and> (t' = msg_ts m \<or> newer t' (msg_ts m))"
        by simp
      moreover from False ds(1) Cons.prems(4) have "(c, m) \<notin> set (dispatched (trace ?w'))" by auto
      ultimately show ?thesis by simp
    next
      case True
      have fetched: "newer (msg_ts x) t \<and> msg_ts x \<noteq> []"
        if "fst (getHistory env c (getLastSeenTs c w) w) = Inr msgs" "x \<in> set msgs" for msgs x
      proof -
        from getHistory_messages[OF that] Cons.prems(1,2) obtain page r s where
          "conversations_history env (trace w) c (Some t) = Inr (Some page)"
          "r \<in> set page" "raw_ts r = Some s" "s \<noteq> []" "msg_ts x = s"
          by (auto simp: present_def)
        with exclusive show ?thesis by blast
      qed
      have above: "newer (msg_ts x) (msg_ts m)"
        if "fst (getHistory env c (getLastSeenTs c w) w) = Inr msgs" "x \<in> set msgs" for msgs x
        using fetched[OF that] Cons.prems(3) trans by blast
      have "\<exists>t'. getLastSeenTs c ?w' = Some t' \<and> t' \<noteq> [] \<and> (t' = msg_ts m \<or> newer t' (msg_ts m))"
        using ds(3) True Cons.prems(1,2,3) fetched above by auto
      moreover have "x \<noteq> m" if "x \<in> set ds" for x
        using that ds(2) True above irrefl by blast
      with ds(1) Cons.prems(4) True have "(c, m) \<notin> set (dispatched (trace ?w'))" by auto
      ultimately show ?thesis by simp
    qed
  qed
  then obtain t' where "getLastSeenTs c ?w' = Some t'" "t' \<noteq> []"
      "t' = msg_ts m \<or> newer t' (msg_ts m)" "(c, m) \<notin> set (dispatched (trace ?w'))"
    by blast
  from Cons.IH[OF this] show ?case by simp
qed

lemma channel_log_env_exclusive:
  "\<forall>evs t page r s. conversations_history (channel_log_env log posted) evs c (Some t) = Inr (Some page)
       \<and> r \<in> set page \<and> raw_ts r = Some s \<longrightarrow> t < s"
  by (auto simp: channel_log_env_def example_env_def)

text \<open>
  Claim C9. When the cursor of a channel is absent and the history fetch returns no
  message, the poll stores no cursor. A later poll that fetches the first messages
  of the channel therefore takes the first-poll baseline: the cursor moves to the
  newest of them and none is dispatched. Nor is such a message \<open>m\<close> dispatched by
  any later sequence of polls, of this channel or of others, given the interface
  of the chat client: the history is ordered oldest first and holds only messages
  strictly newer than the cursor it is asked with (\<open>newer\<close> is the order of the
  timestamps, irreflexive and transitive).
\<close>

theorem empty_first_poll_then_baseline:
  assumes "getLastSeenTs c w = None"
    and "fst (getHistory env1 c None w) = Inr []"
    and "w1 = pollChannel env1 cfg c w"
    and "fst (getHistory env2 c None w1) = Inr msgs"
    and "msgs \<noteq> []"
    and "w2 = pollChannel env2 cfg c w1"
    and "m \<in> set msgs" and "(c, m) \<notin> set (dispatched (trace w))"
    and "\<forall>a. \<not> newer a a"
    and "\<forall>a b d. newer a b \<and> newer b d \<longrightarrow> newer a d"
    and "\<forall>x\<in>set msgs. msg_ts x = msg_ts (last msgs) \<or> newer (msg_ts (last msgs)) (msg_ts x)"
    and "\<forall>evs t page r s. conversations_history env3 evs c (Some t) = Inr (Some page)
            \<and> r \<in> set page \<and> raw_ts r = Some s \<longrightarrow> newer s t"
  shows "stateFile w1 = stateFile w \<and> getLastSeenTs c w1 = None
       \<and> getLastSeenTs c w2 = Some (msg_ts (last msgs))
       \<and> dispatched (trace w2) = dispatched (trace w)
       \<and> (\<forall>chs. (c, m) \<notin> set (dispatched (trace (pollChannels env3 cfg chs w2))))"
proof -
  have gh: "getHistory env1 c None w = (Inr [], emit (ConversationsHistory c None) w)"
    using assms(2) getHistory_world[of env1 c None w]
    by (simp add: present_def prod_eq_iff)
  have w1: "w1 = emit (ConversationsHistory c None) w"
    using assms(1,3) gh by (simp add: pollChannel_def pollChannel_try_def Let_def)
  then have s1: "stateFile w1 = stateFile w" and d1: "dispatched (trace w1) = dispatched (trace w)"
    by (simp_all add: emit_def dispatched_append)
  from s1 have c1: "getLastSeenTs c w1 = None"
    using assms(1) getLastSeenTs_cong[of w1 w c] by simp
  have b: "getLastSeenTs c w2 = Some (msg_ts (last msgs))"
          "dispatched (trace w2) = dispatched (trace w1)"
    using first_poll_effect[OF c1 assms(4,5), of cfg] assms(6)
    by (simp_all add: getLastSeenTs_set_same setLastSeenTs_frame emit_def dispatched_append)
  have ne: "msg_ts (last msgs) \<noteq> []"
    using getHistory_messages[OF assms(4), of "last msgs"] assms(5) by auto
  have pos: "msg_ts (last msgs) = msg_ts m \<or> newer (msg_ts (last msgs)) (msg_ts m)"
    using assms(7,11) by auto
  have nd: "(c, m) \<notin> set (dispatched (trace w2))" using b(2) d1 assms(8) by simp
  have "(c, m) \<notin> set (dispatched (trace (pollChannels env3 cfg chs w2)))" for chs
    using later_polls_skip_seen[OF assms(9,10,12) b(1) ne pos nd] .
  with s1 c1 b d1 show ?thesis by simp
qed

theorem empty_first_poll_then_baseline_witness:
  "getLastSeenTs ''C1'' fresh_world = None
   \<and> fst (getHistory (example_env [] accepted_post) ''C1'' None fresh_world) = Inr []
   \<and> getLastSeenTs ''C1'' (pollChannel (example_env [] accepted_post) example_cfg ''C1'' fresh_world)
       = None
   \<and> getLastSeenTs ''C1''
        (pollChannel (example_env [user_message ''101'' ''<@U1> /projects''] accepted_post)
           example_cfg ''C1''
           (pollChannel (example_env [] accepted_post) example_cfg ''C1'' fresh_world))
       = Some ''101''
   \<and> dispatched (trace
        (pollChannels (channel_log_env growing_log accepted_post) example_cfg [''C1'', ''C2'', ''C1'']
           (pollChannel (example_env [user_message ''101'' ''<@U1> /projects''] accepted_post)
              example_cfg ''C1''
              (pollChannel (example_env [] accepted_post) example_cfg ''C1'' fresh_world))))
       = [(''C1'', toSlackMessage (user_message ''102'' ''<@U1> /projects''))]
   \<and> (''C1'', toSlackMessage (user_message ''101'' ''<@U1> /projects''))
       \<notin> set (dispatched (trace
        (pollChannels (channel_log_env growing_log accepted_post) example_cfg [''C1'', ''C2'', ''C1'']
           (pollChannel (example_env [user_message ''101'' ''<@U1> /projects''] accepted_post)
              example_cfg ''C1''
              (pollChannel (example_env [] accepted_post) example_cfg ''C1'' fresh_world)))))"
proof -
  let ?m = "toSlackMessage (user_message ''101'' ''<@U1> /projects'')"
  let ?w1 = "pollChannel (example_env [] accepted_post) example_cfg ''C1'' fresh_world"
  let ?w2 = "pollChannel (example_env [user_message ''101'' ''<@U1> /projects''] accepted_post)
               example_cfg ''C1'' ?w1"
  have a1: "getLastSeenTs ''C1'' fresh_world = None" by code_simp
  have a2: "fst (getHistory (example_env [] accepted_post) ''C1'' None fresh_world) = Inr []"
    by code_simp
  have a4: "fst (getHistory (example_env [user_message ''101'' ''<@U1> /projects''] accepted_post)
                   ''C1'' None ?w1) = Inr [?m]"
    by code_simp
  have a5: "[?m] \<noteq> []" by simp
  have a7: "?m \<in> set [?m]" by simp
  have a8: "(''C1'', ?m) \<notin> set (dispatched (trace fresh_world))"
    by (simp add: fresh_world_def)
  have o1: "\<forall>a::string. \<not> a < a" by simp
  have o2: "\<forall>a b d::string. b < a \<and> d < b \<longrightarrow> d < a" by auto
  have o3: "\<forall>x\<in>set [?m]. msg_ts x = msg_ts (last [?m]) \<or> msg_ts x < msg_ts (last [?m])" by simp
  have d: "dispatched (trace
        (pollChannels (channel_log_env growing_log accepted_post) example_cfg [''C1'', ''C2'', ''C1''] ?w2))
       = [(''C1'', toSlackMessage (user_message ''102'' ''<@U1> /projects''))]"
    by code_simp
  show ?thesis
    using empty_first_poll_then_baseline[OF a1 a2 refl a4 a5 refl a7 a8,
        where newer="\<lambda>a b. b < a" and ?env3.0="channel_log_env growing_log accepted_post",
        OF o1 o2 o3 channel_log_env_exclusive] a1 a2 d
    by (simp add: toSlackMessage_def user_message_def)
qed

section \<open>Starting a session and the store\<close>

text \<open>
  Claim C7. A start-session command whose resolved project path does not exist
  posts the failure notice and does nothing else: no agent process is spawned (the
  new events are that one post), and the channel files, so the session record
  stored for the channel, are unchanged.
\<close>

theorem handleNewCommand_missing_path:
  assumes "\<not> fs_existsSync env (resolveProjectPath cfg projectName)"
  shows "snd (handleNewCommand env cfg c projectName w)
           = emit (ChatPostMessage c (PathDoesNotExist (resolveProjectPath cfg projectName))) w
       \<and> trace (snd (handleNewCommand env cfg c projectName w))
           = trace w @ [ChatPostMessage c (PathDoesNotExist (resolveProjectPath cfg projectName))]
       \<and> channelFiles (snd (handleNewCommand env cfg c projectName w)) = channelFiles w
       \<and> loadChannelData cfg c (snd (handleNewCommand env cfg c projectName w))
           = loadChannelData cfg c w"
  using assms
  by (simp add: handleNewCommand_def Let_def snd_done_unit postMessage_def emit_def
        loadChannelData_def)

theorem handleNewCommand_missing_path_witness:
  "\<not> fs_existsSync (example_env [] accepted_post) (resolveProjectPath example_cfg ''nope'')
   \<and> trace (snd (handleNewCommand (example_env [] accepted_post) example_cfg ''C1'' ''nope'' session_world))
       = [ChatPostMessage ''C1'' (PathDoesNotExist ''/srv/nope'')]
   \<and> loadChannelData example_cfg ''C1''
        (snd (handleNewCommand (example_env [] accepted_post) example_cfg ''C1'' ''nope'' session_world))
       = Some earlier_session"
proof -
  have h: "\<not> fs_existsSync (example_env [] accepted_post) (resolveProjectPath example_cfg ''nope'')"
    by code_simp
  have p: "resolveProjectPath example_cfg ''nope'' = ''/srv/nope''" by code_simp
  have t: "trace session_world = []"
    by (simp add: session_world_def saveChannelData_def polled_world_def setLastSeenTs_frame
          fresh_world_def)
  have l: "loadChannelData example_cfg ''C1'' session_world = Some earlier_session"
    by (simp add: session_world_def saveChannelData_def loadChannelData_def)
  show ?thesis
    using handleNewCommand_missing_path[OF h, of "''C1''" session_world, THEN conjunct2] h p t l
    by simp
qed

lemma split_on_nonempty: "split_on sep s \<noteq> []"
  by (induction s) (auto split: list.splits)

lemma split_on_no_separator: "sep \<notin> set seg \<Longrightarrow> split_on sep seg = [seg]"
  by (induction seg) (auto split: list.splits)

lemma split_on_append_segment:
  "sep \<notin> set seg \<Longrightarrow> split_on sep (d @ sep # seg) = split_on sep d @ [seg]"
proof (induction d)
  case Nil
  then show ?case by (simp add: split_on_no_separator)
next
  case (Cons x d)
  obtain s ss where "split_on sep d = s # ss"
    using split_on_nonempty[of sep d] by (cases "split_on sep d") auto
  with Cons show ?case by simp
qed

lemma normalizeString_append_segment:
  "seg \<noteq> [] \<Longrightarrow> seg \<noteq> ''.'' \<Longrightarrow> seg \<noteq> ''..'' \<Longrightarrow>
     normalizeString allow res (segs @ [seg]) = normalizeString allow res segs @ [seg]"
  by (induction segs arbitrary: res) auto

lemma join_with_snoc:
  "join_with sep (xs @ [x]) = (if xs = [] then x else join_with sep xs @ sep @ x)"
  by (induction sep xs rule: join_with.induct) auto

text \<open>Joining a directory and a file name: the name is appended to a prefix that depends on the directory only.\<close>

lemma path_join_file_name:
  assumes "CHR ''/'' \<notin> set seg" and "seg \<noteq> []" and "seg \<noteq> ''.''" and "seg \<noteq> ''..''" and "d \<noteq> []"
  shows "path_join d seg =
           (if hd d = CHR ''/'' then ''/'' else [])
           @ (if normalizeString (hd d \<noteq> CHR ''/'') [] (split_on CHR ''/'' d) = [] then []
              else join_with ''/'' (normalizeString (hd d \<noteq> CHR ''/'') [] (split_on CHR ''/'' d)) @ ''/'')
           @ seg"
proof -
  define p where "p = d @ CHR ''/'' # seg"
  define kept where "kept = normalizeString (hd d \<noteq> CHR ''/'') [] (split_on CHR ''/'' d)"
  have ne: "p \<noteq> []" by (simp add: p_def)
  have l: "last p \<noteq> CHR ''/''"
  proof -
    have "last p = last seg" using assms(2) by (simp add: p_def)
    moreover have "last seg \<in> set seg" using assms(2) by (rule last_in_set)
    ultimately show ?thesis using assms(1) by metis
  qed
  have h: "hd p = hd d" using assms(5) by (simp add: p_def)
  have s: "split_on CHR ''/'' p = split_on CHR ''/'' d @ [seg]"
    unfolding p_def using assms(1) by (rule split_on_append_segment)
  have k: "normalizeString (\<not> (hd p = CHR ''/'')) [] (split_on CHR ''/'' p) = kept @ [seg]"
    unfolding s h kept_def using assms(2,3,4) by (rule normalizeString_append_segment)
  have q: "join_with ''/'' (kept @ [seg]) = (if kept = [] then [] else join_with ''/'' kept @ ''/'') @ seg"
    by (simp add: join_with_snoc)
  have qne: "join_with ''/'' (kept @ [seg]) \<noteq> []"
    using assms(2) by (simp add: join_with_snoc)
  have n: "path_normalize p = (if hd d = CHR ''/'' then ''/'' else []) @ join_with ''/'' (kept @ [seg])"
    unfolding path_normalize_def Let_def k using ne l qne by (simp add: h)
  have j: "path_join d seg = path_normalize p"
    using assms(2,5) by (simp add: path_join_def p_def)
  show ?thesis unfolding j n q by (simp add: kept_def)
qed

lemma path_normalize_nonempty: "path_normalize p \<noteq> []"
  by (simp add: path_normalize_def Let_def)

lemma path_join_nonempty: "path_join a b \<noteq> []"
  by (simp add: path_join_def Let_def path_normalize_nonempty)

lemma slack_id_no_separator:
  assumes "slack_id c"
  shows "CHR ''/'' \<notin> set c"
proof -
  have "\<not> slack_id_char CHR ''/''" by code_simp
  moreover have "\<forall>ch\<in>set c. slack_id_char ch"
    using assms unfolding slack_id_def list_all_iff by simp
  ultimately show ?thesis by blast
qed

lemma json_file_name:
  assumes "CHR ''/'' \<notin> set x"
  shows "CHR ''/'' \<notin> set (x @ ''.json'')" and "x @ ''.json'' \<noteq> []"
    and "x @ ''.json'' \<noteq> ''.''" and "x @ ''.json'' \<noteq> ''..''"
proof -
  show "CHR ''/'' \<notin> set (x @ ''.json'')" using assms by simp
  show "x @ ''.json'' \<noteq> []" by simp
  have len: "length (x @ ''.json'') = length x + 5" by simp
  show "x @ ''.json'' \<noteq> ''.''"
  proof
    assume "x @ ''.json'' = ''.''"
    then have "length (x @ ''.json'') = length ''.''" by (rule arg_cong)
    then show False by simp
  qed
  show "x @ ''.json'' \<noteq> ''..''"
  proof
    assume "x @ ''.json'' = ''..''"
    then have "length (x @ ''.json'') = length ''..''" by (rule arg_cong)
    then show False by simp
  qed
qed

lemma channelFilePath_inject:
  assumes "CHR ''/'' \<notin> set c" and "CHR ''/'' \<notin> set c'"
  shows "channelFilePath cfg c = channelFilePath cfg c' \<longleftrightarrow> c = c'"
proof -
  have d: "channelsDir cfg \<noteq> []" by (simp add: channelsDir_def path_join_nonempty)
  show ?thesis
    unfolding channelFilePath_def
      path_join_file_name[OF json_file_name[OF assms(1)] d]
      path_join_file_name[OF json_file_name[OF assms(2)] d]
    by simp
qed

text \<open>
  Claim C10, amended. For two distinct channel identifiers of the form Slack
  issues, writing the cursor (\<^verbatim>\<open>setLastSeenTs\<close>) or the session record
  (\<^verbatim>\<open>saveChannelData\<close>) of \<open>c'\<close> leaves the stored cursor and the stored session
  record of \<open>c\<close> unchanged.
\<close>

theorem store_writes_leave_other_channels:
  assumes "slack_id c" and "slack_id c'" and "c \<noteq> c'"
  shows "getLastSeenTs c (setLastSeenTs c' ts w) = getLastSeenTs c w
       \<and> loadChannelData cfg c (setLastSeenTs c' ts w) = loadChannelData cfg c w
       \<and> getLastSeenTs c (saveChannelData cfg c' d w) = getLastSeenTs c w
       \<and> loadChannelData cfg c (saveChannelData cfg c' d w) = loadChannelData cfg c w"
proof (intro conjI)
  show "getLastSeenTs c (setLastSeenTs c' ts w) = getLastSeenTs c w"
    using assms(3) by (rule getLastSeenTs_set_other)
  show "loadChannelData cfg c (setLastSeenTs c' ts w) = loadChannelData cfg c w"
    by (simp add: loadChannelData_def setLastSeenTs_frame)
  show "getLastSeenTs c (saveChannelData cfg c' d w) = getLastSeenTs c w"
    by (simp add: saveChannelData_def getLastSeenTs_def loadPollState_def)
  show "loadChannelData cfg c (saveChannelData cfg c' d w) = loadChannelData cfg c w"
    using assms
    by (simp add: saveChannelData_def loadChannelData_def
          channelFilePath_inject[OF slack_id_no_separator slack_id_no_separator])
qed

theorem store_writes_leave_other_channels_witness:
  "slack_id ''C1'' \<and> slack_id ''C2'' \<and> ''C1'' \<noteq> ''C2''
   \<and> getLastSeenTs ''C1'' (setLastSeenTs ''C2'' ''300'' session_world) = Some ''100''
   \<and> loadChannelData example_cfg ''C1'' (setLastSeenTs ''C2'' ''300'' session_world) = Some earlier_session
   \<and> getLastSeenTs ''C1'' (saveChannelData example_cfg ''C2'' later_session session_world) = Some ''100''
   \<and> loadChannelData example_cfg ''C1'' (saveChannelData example_cfg ''C2'' later_session session_world)
       = Some earlier_session"
proof -
  have i1: "slack_id ''C1''" by code_simp
  have i2: "slack_id ''C2''" by code_simp
  have n: "''C1'' \<noteq> ''C2''" by simp
  have g: "getLastSeenTs ''C1'' session_world = Some ''100''" by code_simp
  have l: "loadChannelData example_cfg ''C1'' session_world = Some earlier_session"
    by (simp add: session_world_def saveChannelData_def loadChannelData_def)
  show ?thesis
    using store_writes_leave_other_channels[OF i1 i2 n, of "''300''" session_world example_cfg later_session]
      i1 i2 g l
    by simp
qed

text \<open>
  The claim as first stated, for any two distinct identifiers, fails: \<^verbatim>\<open>path.join\<close>
  normalises \<^verbatim>\<open>X/../C1.json\<close> to the file of \<^verbatim>\<open>C1\<close>, so saving a session for
  \<^verbatim>\<open>X/../C1\<close> replaces the session of \<^verbatim>\<open>C1\<close>.
\<close>

theorem saveChannelData_path_collision_counterexample:
  "''C1'' \<noteq> ''X/../C1''
   \<and> loadChannelData example_cfg ''C1'' session_world = Some earlier_session
   \<and> loadChannelData example_cfg ''C1'' (saveChannelData example_cfg ''X/../C1'' later_session session_world)
       = Some later_session
   \<and> earlier_session \<noteq> later_session"
proof -
  have p: "channelFilePath example_cfg ''X/../C1'' = channelFilePath example_cfg ''C1''"
    by code_simp
  have l: "loadChannelData example_cfg ''C1'' session_world = Some earlier_session"
    by (simp add: session_world_def saveChannelData_def loadChannelData_def)
  have d: "earlier_session \<noteq> later_session"
    by (simp add: earlier_session_def later_session_def)
  show ?thesis using l d by (simp add: saveChannelData_def loadChannelData_def p)
qed


end
